theory Spec2Isabelle
  imports Complex_Main
begin

section \<open>Arrays\<close>

text \<open>
  The layers of \<^verbatim>\<open>q1.py\<close> compute on numpy arrays of dtype float64. An array is
  modelled by its shape and its elements in row-major (C) order, the order in which
  \<^verbatim>\<open>flatten\<close> and \<^verbatim>\<open>reshape\<close> read an array. Elements are real numbers: the
  arithmetic is exact, rounding, overflow, \<^verbatim>\<open>inf\<close> and \<^verbatim>\<open>nan\<close> are not modelled.

  Every array is a float64 array, as the ones \<open>train\<close> passes are:
  \<^verbatim>\<open>np.zeros_like(self.input)\<close> is \<open>np_zeros\<close> of the shape of the input. (For an input of
  an integer dtype numpy allocates an integer array there, which is not modelled.)

  Exceptions are values of type \<open>error\<close>. \<open>OutsideModel\<close> is not an exception of the
  program: a function returns it on arguments on which numpy would broadcast, divide by
  zero into \<^verbatim>\<open>inf\<close>, or otherwise leave what this model describes.
\<close>

datatype error =
  ValueError | IndexError | AssertionError | AttributeError | ZeroDivisionError | OutsideModel

record ndarray =
  shape :: "nat list"
  data :: "real list"

definition wf :: "ndarray \<Rightarrow> bool" where
  "wf a \<longleftrightarrow> length (data a) = prod_list (shape a)"

definition get2 :: "ndarray \<Rightarrow> nat \<Rightarrow> nat \<Rightarrow> real" where
  \<comment> \<open>\<^verbatim>\<open>a[i, j]\<close> of a 2D array\<close>
  "get2 a i j = data a ! (i * (shape a ! 1) + j)"

definition get3 :: "ndarray \<Rightarrow> nat \<Rightarrow> nat \<Rightarrow> nat \<Rightarrow> real" where
  \<comment> \<open>\<^verbatim>\<open>a[f, i, j]\<close> of a 3D array\<close>
  "get3 a f i j = data a ! ((f * (shape a ! 1) + i) * (shape a ! 2) + j)"

definition rows2 :: "nat \<Rightarrow> nat \<Rightarrow> (nat \<Rightarrow> nat \<Rightarrow> real) \<Rightarrow> real list" where
  \<comment> \<open>the numbers \<open>g i j\<close> for \<open>i < h\<close> and \<open>j < w\<close>, in row-major order\<close>
  "rows2 h w g = concat (map (\<lambda>i. map (g i) [0..<w]) [0..<h])"

definition tab2 :: "nat \<Rightarrow> nat \<Rightarrow> (nat \<Rightarrow> nat \<Rightarrow> real) \<Rightarrow> ndarray" where
  \<comment> \<open>the 2D array of shape \<open>(h, w)\<close> whose element \<open>[i, j]\<close> is \<open>g i j\<close>\<close>
  "tab2 h w g = \<lparr>shape = [h, w], data = rows2 h w g\<rparr>"

definition tab3 :: "nat \<Rightarrow> nat \<Rightarrow> nat \<Rightarrow> (nat \<Rightarrow> nat \<Rightarrow> nat \<Rightarrow> real) \<Rightarrow> ndarray" where
  \<comment> \<open>the 3D array of shape \<open>(n, h, w)\<close> whose element \<open>[f, i, j]\<close> is \<open>g f i j\<close>\<close>
  "tab3 n h w g = \<lparr>shape = [n, h, w], data = concat (map (\<lambda>f. rows2 h w (g f)) [0..<n])\<rparr>"

definition np_zeros :: "nat list \<Rightarrow> ndarray" where
  "np_zeros s = \<lparr>shape = s, data = replicate (prod_list s) 0\<rparr>"

definition np_sum :: "ndarray \<Rightarrow> real" where
  "np_sum a = sum_list (data a)"

definition the_max :: "real list \<Rightarrow> real" where
  \<comment> \<open>the maximum of a non-empty sequence, scanning from the left\<close>
  "the_max xs = fold max (tl xs) (hd xs)"

definition np_max :: "real list \<Rightarrow> error + real" where
  \<comment> \<open>\<^verbatim>\<open>np.max\<close> over all the elements: a zero-size array has no maximum\<close>
  "np_max xs = (if xs = [] then Inl ValueError else Inr (the_max xs))"

definition amul :: "ndarray \<Rightarrow> ndarray \<Rightarrow> ndarray" where
  \<comment> \<open>\<^verbatim>\<open>a * b\<close> for two arrays of the same shape (broadcasting is not modelled)\<close>
  "amul a b = \<lparr>shape = shape a, data = map2 (*) (data a) (data b)\<rparr>"

definition aadd :: "ndarray \<Rightarrow> ndarray \<Rightarrow> ndarray" where
  \<comment> \<open>\<^verbatim>\<open>a + b\<close> for two arrays of the same shape\<close>
  "aadd a b = \<lparr>shape = shape a, data = map2 (+) (data a) (data b)\<rparr>"

definition asub :: "ndarray \<Rightarrow> ndarray \<Rightarrow> ndarray" where
  \<comment> \<open>\<^verbatim>\<open>a - b\<close> for two arrays of the same shape\<close>
  "asub a b = \<lparr>shape = shape a, data = map2 (-) (data a) (data b)\<rparr>"

definition ascale :: "real \<Rightarrow> ndarray \<Rightarrow> ndarray" where
  \<comment> \<open>\<^verbatim>\<open>c * a\<close> for a scalar \<open>c\<close>\<close>
  "ascale c a = \<lparr>shape = shape a, data = map (\<lambda>v. c * v) (data a)\<rparr>"

definition slice2 :: "ndarray \<Rightarrow> nat \<Rightarrow> nat \<Rightarrow> nat \<Rightarrow> nat \<Rightarrow> ndarray" where
  \<comment> \<open>\<^verbatim>\<open>a[i0:i1, j0:j1]\<close> of a 2D array: a slice stops at the bounds of the array\<close>
  "slice2 a i0 i1 j0 j1 =
     (let r0 = min i0 (shape a ! 0); r1 = min i1 (shape a ! 0);
          c0 = min j0 (shape a ! 1); c1 = min j1 (shape a ! 1)
      in tab2 (r1 - r0) (c1 - c0) (\<lambda>i j. get2 a (r0 + i) (c0 + j)))"

definition sub0 :: "ndarray \<Rightarrow> nat \<Rightarrow> ndarray" where
  \<comment> \<open>\<^verbatim>\<open>a[f]\<close>, that is \<^verbatim>\<open>a[f, :, :]\<close>, of a 3D array, for \<open>f\<close> in range\<close>
  "sub0 a f = tab2 (shape a ! 1) (shape a ! 2) (\<lambda>i j. get3 a f i j)"

definition set0 :: "ndarray \<Rightarrow> nat \<Rightarrow> ndarray \<Rightarrow> ndarray" where
  \<comment> \<open>the 3D array \<open>a\<close> after \<^verbatim>\<open>a[f] = b\<close>, for \<open>f\<close> in range and \<open>b\<close> of the shape of \<^verbatim>\<open>a[f]\<close>\<close>
  "set0 a f b =
     tab3 (shape a ! 0) (shape a ! 1) (shape a ! 2)
       (\<lambda>f' i j. if f' = f then get2 b i j else get3 a f' i j)"

definition add_at3 :: "ndarray \<Rightarrow> nat \<Rightarrow> nat \<Rightarrow> nat \<Rightarrow> real \<Rightarrow> ndarray" where
  \<comment> \<open>the 3D array \<open>a\<close> after \<^verbatim>\<open>a[f, i, j] += v\<close>, for indices in range\<close>
  "add_at3 a f i j v =
     (let n = (f * (shape a ! 1) + i) * (shape a ! 2) + j
      in a\<lparr>data := (data a)[n := data a ! n + v]\<rparr>)"

definition np_pad :: "ndarray \<Rightarrow> nat \<Rightarrow> ndarray" where
  \<comment> \<open>\<^verbatim>\<open>np.pad(a, p)\<close> of a 2D array: \<open>p\<close> zeros before and after each axis\<close>
  "np_pad a p =
     (let h = shape a ! 0; w = shape a ! 1
      in tab2 (h + 2 * p) (w + 2 * p)
           (\<lambda>r c. if p \<le> r \<and> r < p + h \<and> p \<le> c \<and> c < p + w then get2 a (r - p) (c - p) else 0))"

definition np_rot90_2 :: "ndarray \<Rightarrow> ndarray" where
  \<comment> \<open>\<^verbatim>\<open>np.rot90(a, 2)\<close> of a 2D array: both axes reversed\<close>
  "np_rot90_2 a =
     (let h = shape a ! 0; w = shape a ! 1
      in tab2 h w (\<lambda>i j. get2 a (h - 1 - i) (w - 1 - j)))"

definition transpose2 :: "ndarray \<Rightarrow> ndarray" where
  \<comment> \<open>\<^verbatim>\<open>a.T\<close> of a 2D array\<close>
  "transpose2 a = tab2 (shape a ! 1) (shape a ! 0) (\<lambda>i j. get2 a j i)"

definition np_dot :: "ndarray \<Rightarrow> ndarray \<Rightarrow> error + ndarray" where
  \<comment> \<open>\<^verbatim>\<open>np.dot(a, b)\<close> of two 2D arrays: the matrix product\<close>
  "np_dot a b =
     (if shape a ! 1 \<noteq> shape b ! 0 then Inl ValueError
      else Inr (tab2 (shape a ! 0) (shape b ! 1)
                  (\<lambda>i j. \<Sum>k\<leftarrow>[0..<shape a ! 1]. get2 a i k * get2 b k j)))"

fun argmax_scan :: "real \<Rightarrow> nat \<Rightarrow> nat \<Rightarrow> real list \<Rightarrow> nat" where
  "argmax_scan mp best i [] = best"
| "argmax_scan mp best i (x # xs) =
     (if mp < x then argmax_scan x i (Suc i) xs else argmax_scan mp best (Suc i) xs)"

definition first_argmax :: "real list \<Rightarrow> nat" where
  \<comment> \<open>the index of the maximum of a non-empty sequence: a later element replaces the
      current maximum only when it is strictly greater\<close>
  "first_argmax xs = argmax_scan (hd xs) 0 1 (tl xs)"

definition np_argmax :: "real list \<Rightarrow> error + nat" where
  \<comment> \<open>\<^verbatim>\<open>np.argmax\<close> over the flattened array\<close>
  "np_argmax xs = (if xs = [] then Inl ValueError else Inr (first_argmax xs))"

definition np_unravel_index :: "nat \<Rightarrow> nat \<times> nat \<Rightarrow> nat \<times> nat" where
  \<comment> \<open>\<^verbatim>\<open>np.unravel_index(m, (h, w))\<close> for \<open>m < h * w\<close>\<close>
  "np_unravel_index m s = (m div snd s, m mod snd s)"

definition py_index :: "nat \<Rightarrow> int \<Rightarrow> error + nat" where
  \<comment> \<open>an integer index into an axis of length \<open>n\<close>: a negative index counts from the end\<close>
  "py_index n i =
     (if 0 \<le> i \<and> i < int n then Inr (nat i)
      else if - int n \<le> i \<and> i < 0 then Inr (nat (int n + i))
      else Inl IndexError)"

section \<open>Convolution layer\<close>

record ConvolutionLayer =
  conv_num_filters :: nat
  conv_filter_size :: nat
  conv_filter :: ndarray
  conv_bias :: ndarray
  conv_input :: "ndarray option"

definition ConvolutionLayer_init :: "nat \<Rightarrow> nat \<Rightarrow> real list \<Rightarrow> ConvolutionLayer" where
  \<comment> \<open>\<open>randn\<close> are the \<open>num_filters * filter_size * filter_size\<close> values that
      \<^verbatim>\<open>np.random.randn\<close> draws\<close>
  "ConvolutionLayer_init num_filters filter_size randn =
     \<lparr>conv_num_filters = num_filters,
      conv_filter_size = filter_size,
      conv_filter = \<lparr>shape = [num_filters, filter_size, filter_size],
                     data = map (\<lambda>v. v / real (filter_size * filter_size)) randn\<rparr>,
      conv_bias = np_zeros [num_filters],
      conv_input = None\<rparr>"

definition conv_ok :: "ConvolutionLayer \<Rightarrow> bool" where
  \<comment> \<open>the shapes of the parameters, as the constructor sets them and \<open>backward\<close>
      keeps them\<close>
  "conv_ok L \<longleftrightarrow>
     shape (conv_filter L) = [conv_num_filters L, conv_filter_size L, conv_filter_size L]
     \<and> wf (conv_filter L)
     \<and> shape (conv_bias L) = [conv_num_filters L] \<and> wf (conv_bias L)"

definition conv_forward ::
  "ConvolutionLayer \<Rightarrow> ndarray \<Rightarrow> error + ndarray \<times> ConvolutionLayer" where
  "conv_forward L inp =
     (case shape inp of
        [height, width] \<Rightarrow>
          let k = conv_filter_size L;
              output_height = int height - int k + 1;
              output_width = int width - int k + 1
          in if output_height < 0 \<or> output_width < 0 then Inl ValueError
             else Inr (tab3 (conv_num_filters L) (nat output_height) (nat output_width)
                         (\<lambda>f i j. np_sum (amul (slice2 inp i (i + k) j (j + k))
                                                (sub0 (conv_filter L) f))
                                  + data (conv_bias L) ! f),
                       L\<lparr>conv_input := Some inp\<rparr>)
      | _ \<Rightarrow> Inl ValueError)"

definition conv_backward_step ::
  "ConvolutionLayer \<Rightarrow> ndarray \<Rightarrow> ndarray \<Rightarrow> nat
     \<Rightarrow> ndarray \<times> ndarray \<times> ndarray \<Rightarrow> ndarray \<times> ndarray \<times> ndarray" where
  \<comment> \<open>one round of the loop over the filters, on
      \<open>(input_error, filter_error, bias_error)\<close>\<close>
  "conv_backward_step L X output_error f acc =
     (case acc of (input_error, filter_error, bias_error) \<Rightarrow>
        let k = conv_filter_size L;
            padded_output_error = np_pad (sub0 output_error f) (k - 1);
            input_error' =
              tab2 (shape X ! 0) (shape X ! 1)
                (\<lambda>i j. get2 input_error i j
                       + np_sum (amul (slice2 padded_output_error i (i + k) j (j + k))
                                      (np_rot90_2 (sub0 (conv_filter L) f))));
            positions = List.product [0..<shape output_error ! 1] [0..<shape output_error ! 2];
            filter_error' =
              set0 filter_error f
                (fold (\<lambda>(i, j) fe. aadd fe (ascale (get3 output_error f i j)
                                                 (slice2 X i (i + k) j (j + k))))
                   positions (sub0 filter_error f));
            bias_error' =
              bias_error\<lparr>data := (data bias_error)
                 [f := fold (\<lambda>(i, j) b. b + get3 output_error f i j) positions
                         (data bias_error ! f)]\<rparr>
        in (input_error', filter_error', bias_error'))"

definition conv_backward ::
  "ConvolutionLayer \<Rightarrow> ndarray \<Rightarrow> real \<Rightarrow> error + ndarray \<times> ConvolutionLayer" where
  \<comment> \<open>The docstring's \<open>output_error\<close> has the shape of the forward output; on another one
      the numpy code broadcasts or raises, which is outside this model.
      \<^verbatim>\<open>np.pad\<close> refuses the negative width \<open>filter_size - 1\<close> of a filter of size 0.\<close>
  "conv_backward L output_error learning_rate =
     (case conv_input L of
        None \<Rightarrow> Inl AttributeError
      | Some X \<Rightarrow>
          (case shape X of
             [height, width] \<Rightarrow>
               let k = conv_filter_size L;
                   output_height = int height - int k + 1;
                   output_width = int width - int k + 1
               in if output_height < 0 \<or> output_width < 0
                     \<or> shape output_error
                          \<noteq> [conv_num_filters L, nat output_height, nat output_width]
                  then Inl OutsideModel
                  else if k = 0 \<and> 0 < conv_num_filters L then Inl ValueError
                  else
                    (case fold (conv_backward_step L X output_error) [0..<conv_num_filters L]
                            (np_zeros (shape X), np_zeros (shape (conv_filter L)),
                             np_zeros (shape (conv_bias L))) of
                       (input_error, filter_error, bias_error) \<Rightarrow>
                         Inr (input_error,
                              L\<lparr>conv_filter :=
                                  asub (conv_filter L) (ascale learning_rate filter_error),
                                conv_bias :=
                                  asub (conv_bias L) (ascale learning_rate bias_error)\<rparr>))
           | _ \<Rightarrow> Inl OutsideModel))"

section \<open>ReLU layer\<close>

record ReLULayer =
  relu_input :: "ndarray option"

definition relu_forward :: "ReLULayer \<Rightarrow> ndarray \<Rightarrow> error + ndarray \<times> ReLULayer" where
  "relu_forward L inp =
     Inr (inp\<lparr>data := map (\<lambda>v. max v 0) (data inp)\<rparr>, L\<lparr>relu_input := Some inp\<rparr>)"

definition relu_backward :: "ReLULayer \<Rightarrow> ndarray \<Rightarrow> real \<Rightarrow> error + ndarray \<times> ReLULayer" where
  "relu_backward L output_error learning_rate =
     (case relu_input L of
        None \<Rightarrow> Inl AttributeError
      | Some inp \<Rightarrow>
          if shape output_error \<noteq> shape inp then Inl OutsideModel
          else
            let onehot_mat = inp\<lparr>data := map (\<lambda>v. if 0 < v then 1 else 0) (data inp)\<rparr>
            in Inr (amul output_error onehot_mat, L))"

section \<open>Max-pooling layer\<close>

record MaxPoolingLayer =
  pool_filter_size :: nat
  pool_input :: "ndarray option"

definition pool_region :: "ndarray \<Rightarrow> nat \<Rightarrow> nat \<Rightarrow> nat \<Rightarrow> nat \<Rightarrow> ndarray" where
  \<comment> \<open>\<^verbatim>\<open>input[f, i*k:(i+1)*k, j*k:(j+1)*k]\<close>\<close>
  "pool_region inp k f i j = slice2 (sub0 inp f) (i * k) ((i + 1) * k) (j * k) ((j + 1) * k)"

definition pool_forward ::
  "MaxPoolingLayer \<Rightarrow> ndarray \<Rightarrow> error + ndarray \<times> MaxPoolingLayer" where
  \<comment> \<open>With a window of size \<open>k \<ge> 1\<close> every region has \<open>k * k\<close> elements, so
      \<^verbatim>\<open>np.max\<close> does not raise.\<close>
  "pool_forward L inp =
     (case shape inp of
        [num_filters, height, width] \<Rightarrow>
          let k = pool_filter_size L
          in if k = 0 then Inl ZeroDivisionError
             else Inr (tab3 num_filters (height div k) (width div k)
                         (\<lambda>f i j. the_max (data (pool_region inp k f i j))),
                       L\<lparr>pool_input := Some inp\<rparr>)
      | _ \<Rightarrow> Inl ValueError)"

definition pool_max_index :: "nat \<Rightarrow> ndarray \<Rightarrow> nat \<Rightarrow> nat \<Rightarrow> nat \<Rightarrow> nat \<times> nat" where
  \<comment> \<open>\<open>max_index\<close>: \<^verbatim>\<open>np.unravel_index(np.argmax(region), (k, k))\<close> for the region of
      \<open>f, i, j\<close>\<close>
  "pool_max_index k inp f i j =
     np_unravel_index (first_argmax (data (pool_region inp k f i j))) (k, k)"

definition pool_backward_step ::
  "nat \<Rightarrow> ndarray \<Rightarrow> ndarray \<Rightarrow> nat \<times> nat \<times> nat \<Rightarrow> ndarray \<Rightarrow> ndarray" where
  \<comment> \<open>the body of the loops over \<open>f, i, j\<close>, on \<open>input_error\<close>\<close>
  "pool_backward_step k inp output_error p input_error =
     (case p of (f, i, j) \<Rightarrow>
        let max_index = pool_max_index k inp f i j
        in add_at3 input_error f (i * k + fst max_index) (j * k + snd max_index)
             (get3 output_error f i j))"

definition pool_backward ::
  "MaxPoolingLayer \<Rightarrow> ndarray \<Rightarrow> real \<Rightarrow> error + ndarray \<times> MaxPoolingLayer" where
  \<comment> \<open>The docstring's \<open>output_error\<close> has the shape of the forward output, for which
      every region has \<open>k * k\<close> elements and every index is in range; another shape is
      outside this model.\<close>
  "pool_backward L output_error learning_rate =
     (case pool_input L of
        None \<Rightarrow> Inl AttributeError
      | Some inp \<Rightarrow>
          (case shape inp of
             [num_filters, height, width] \<Rightarrow>
               let k = pool_filter_size L
               in if k = 0 \<or> shape output_error \<noteq> [num_filters, height div k, width div k]
                  then Inl OutsideModel
                  else Inr (fold (pool_backward_step k inp output_error)
                              (List.product [0..<num_filters]
                                 (List.product [0..<height div k] [0..<width div k]))
                              (np_zeros (shape inp)),
                            L)
           | _ \<Rightarrow> Inl OutsideModel))"

definition block_argmax :: "ndarray \<Rightarrow> nat \<Rightarrow> nat \<Rightarrow> nat \<Rightarrow> nat \<Rightarrow> bool" where
  \<comment> \<open>Position \<open>(I, J)\<close> of channel \<open>f\<close> achieves the maximum of its \<open>k\<close> by \<open>k\<close> block, and
      no position before it in the row-major order of the block does: the words of the
      specification, to compare \<open>pool_backward\<close> with.\<close>
  "block_argmax inp k f I J \<longleftrightarrow>
     (\<forall>a\<in>{..<k}. \<forall>b\<in>{..<k}.
        get3 inp f (I div k * k + a) (J div k * k + b) \<le> get3 inp f I J
        \<and> (a * k + b < I mod k * k + J mod k
             \<longrightarrow> get3 inp f (I div k * k + a) (J div k * k + b) < get3 inp f I J))"

section \<open>Flatten layer\<close>

record FlattenLayer =
  flatten_input_shape :: "nat list option"

definition flatten_forward :: "FlattenLayer \<Rightarrow> ndarray \<Rightarrow> error + ndarray \<times> FlattenLayer" where
  "flatten_forward L inp =
     (let output = \<lparr>shape = [length (data inp), 1], data = data inp\<rparr>
      in if length (shape inp) < 3 then Inl IndexError
         else if shape output \<noteq> [shape inp ! 0 * shape inp ! 1 * shape inp ! 2, 1]
           then Inl AssertionError
         else Inr (output, L\<lparr>flatten_input_shape := Some (shape inp)\<rparr>))"

definition flatten_backward ::
  "FlattenLayer \<Rightarrow> ndarray \<Rightarrow> real \<Rightarrow> error + ndarray \<times> FlattenLayer" where
  "flatten_backward L output_error learning_rate =
     (case flatten_input_shape L of
        None \<Rightarrow> Inl AttributeError
      | Some s \<Rightarrow>
          (case s of
             [a, b, c] \<Rightarrow>
               if length (data output_error) \<noteq> a * b * c then Inl ValueError
               else Inr (\<lparr>shape = [a, b, c], data = data output_error\<rparr>, L)
           | _ \<Rightarrow> Inl ValueError))"

section \<open>Fully-connected layer\<close>

record FCLayer =
  fc_input_size :: nat
  fc_output_size :: nat
  fc_conv_filter :: ndarray
  fc_bias :: ndarray
  fc_input :: "ndarray option"
  fc_output :: "ndarray option"

definition FCLayer_init :: "nat \<Rightarrow> nat \<Rightarrow> real list \<Rightarrow> real list \<Rightarrow> FCLayer" where
  \<comment> \<open>\<open>r1\<close> and \<open>r2\<close> are the values that the two calls of \<^verbatim>\<open>np.random.random\<close> draw\<close>
  "FCLayer_init input_size output_size r1 r2 =
     \<lparr>fc_input_size = input_size,
      fc_output_size = output_size,
      fc_conv_filter = \<lparr>shape = [input_size, output_size], data = map (\<lambda>v. v - 0.5) r1\<rparr>,
      fc_bias = \<lparr>shape = [output_size, 1], data = map (\<lambda>v. v - 0.5) r2\<rparr>,
      fc_input = None,
      fc_output = None\<rparr>"

definition fc_ok :: "FCLayer \<Rightarrow> bool" where
  \<comment> \<open>the shapes of the parameters, as the constructor sets them\<close>
  "fc_ok L \<longleftrightarrow>
     shape (fc_conv_filter L) = [fc_input_size L, fc_output_size L] \<and> wf (fc_conv_filter L)
     \<and> shape (fc_bias L) = [fc_output_size L, 1] \<and> wf (fc_bias L)"

definition fc_forward :: "FCLayer \<Rightarrow> ndarray \<Rightarrow> error + ndarray \<times> FCLayer" where
  \<comment> \<open>For an input of one column the product and the bias have the same shape; with
      more columns the sum broadcasts and the assertion on the shape fails.\<close>
  "fc_forward L inp =
     (case shape inp of
        [r, c] \<Rightarrow>
          (case np_dot (transpose2 (fc_conv_filter L)) inp of
             Inl e \<Rightarrow> Inl e
           | Inr d \<Rightarrow>
               if shape d \<noteq> [fc_output_size L, 1] then Inl AssertionError
               else if shape (fc_bias L) \<noteq> shape d then Inl OutsideModel
               else
                 let output = aadd d (fc_bias L)
                 in Inr (output, L\<lparr>fc_input := Some inp, fc_output := Some output\<rparr>))
      | _ \<Rightarrow> Inl OutsideModel)"

definition fc_backward :: "FCLayer \<Rightarrow> ndarray \<Rightarrow> real \<Rightarrow> error + ndarray \<times> FCLayer" where
  \<comment> \<open>The two in-place updates are modelled where the gradient has the shape of its
      parameter.\<close>
  "fc_backward L output_error learning_rate =
     (case fc_input L of
        None \<Rightarrow> Inl AttributeError
      | Some inp \<Rightarrow>
          if length (shape output_error) \<noteq> 2 \<or> length (shape inp) \<noteq> 2 then Inl OutsideModel
          else
            (case np_dot (fc_conv_filter L) output_error of
               Inl e \<Rightarrow> Inl e
             | Inr input_error \<Rightarrow>
                 (case np_dot inp (transpose2 output_error) of
                    Inl e \<Rightarrow> Inl e
                  | Inr conv_filter_error \<Rightarrow>
                      if shape conv_filter_error \<noteq> shape (fc_conv_filter L)
                         \<or> shape output_error \<noteq> shape (fc_bias L)
                      then Inl OutsideModel
                      else if shape input_error \<noteq> shape inp then Inl AssertionError
                      else Inr (input_error,
                                L\<lparr>fc_conv_filter :=
                                    asub (fc_conv_filter L)
                                      (ascale learning_rate conv_filter_error),
                                  fc_bias :=
                                    asub (fc_bias L) (ascale learning_rate output_error)\<rparr>))))"

section \<open>Softmax layer\<close>

record SoftmaxLayer =
  softmax_output :: "ndarray option"

definition softmax_forward :: "SoftmaxLayer \<Rightarrow> ndarray \<Rightarrow> error + ndarray \<times> SoftmaxLayer" where
  "softmax_forward L inp =
     (case shape inp of
        [n, c] \<Rightarrow>
          if c \<noteq> 1 then Inl OutsideModel
          else (case np_max (data inp) of
                  Inl e \<Rightarrow> Inl e
                | Inr m \<Rightarrow>
                    let e = map (\<lambda>v. exp (v - m)) (data inp);
                        output = \<lparr>shape = shape inp, data = map (\<lambda>v. v / sum_list e) e\<rparr>
                    in Inr (output, L\<lparr>softmax_output := Some output\<rparr>))
      | _ \<Rightarrow> Inl OutsideModel)"

definition softmax_backward ::
  "SoftmaxLayer \<Rightarrow> ndarray \<Rightarrow> real \<Rightarrow> error + ndarray \<times> SoftmaxLayer" where
  "softmax_backward L output_error learning_rate =
     (case softmax_output L of
        None \<Rightarrow> Inl AttributeError
      | Some output \<Rightarrow>
          if length (shape output) \<noteq> 2 \<or> shape output ! 1 \<noteq> 1
             \<or> shape output_error \<noteq> shape output
          then Inl OutsideModel
          else
            (case np_dot (transpose2 output) output_error of
               Inl e \<Rightarrow> Inl e
             | Inr s \<Rightarrow>
                 Inr (asub (amul output output_error) (ascale (get2 s 0 0) output), L)))"

section \<open>The training step\<close>

datatype layer =
  Conv ConvolutionLayer
| ReLU ReLULayer
| MaxPool MaxPoolingLayer
| Flatten FlattenLayer
| FC FCLayer
| Softmax SoftmaxLayer

fun forward :: "layer \<Rightarrow> ndarray \<Rightarrow> error + ndarray \<times> layer" where
  "forward (Conv L) x = map_sum id (map_prod id Conv) (conv_forward L x)"
| "forward (ReLU L) x = map_sum id (map_prod id ReLU) (relu_forward L x)"
| "forward (MaxPool L) x = map_sum id (map_prod id MaxPool) (pool_forward L x)"
| "forward (Flatten L) x = map_sum id (map_prod id Flatten) (flatten_forward L x)"
| "forward (FC L) x = map_sum id (map_prod id FC) (fc_forward L x)"
| "forward (Softmax L) x = map_sum id (map_prod id Softmax) (softmax_forward L x)"

fun backward :: "layer \<Rightarrow> ndarray \<Rightarrow> real \<Rightarrow> error + ndarray \<times> layer" where
  "backward (Conv L) g lr = map_sum id (map_prod id Conv) (conv_backward L g lr)"
| "backward (ReLU L) g lr = map_sum id (map_prod id ReLU) (relu_backward L g lr)"
| "backward (MaxPool L) g lr = map_sum id (map_prod id MaxPool) (pool_backward L g lr)"
| "backward (Flatten L) g lr = map_sum id (map_prod id Flatten) (flatten_backward L g lr)"
| "backward (FC L) g lr = map_sum id (map_prod id FC) (fc_backward L g lr)"
| "backward (Softmax L) g lr = map_sum id (map_prod id Softmax) (softmax_backward L g lr)"

fun forward_all :: "layer list \<Rightarrow> ndarray \<Rightarrow> error + ndarray \<times> layer list" where
  \<comment> \<open>\<^verbatim>\<open>for layer in layers: out = layer.forward(out)\<close>\<close>
  "forward_all [] out = Inr (out, [])"
| "forward_all (l # ls) out =
     (case forward l out of
        Inl e \<Rightarrow> Inl e
      | Inr (out', l') \<Rightarrow>
          (case forward_all ls out' of
             Inl e \<Rightarrow> Inl e
           | Inr (out'', ls') \<Rightarrow> Inr (out'', l' # ls')))"

fun backward_all :: "layer list \<Rightarrow> ndarray \<Rightarrow> real \<Rightarrow> error + ndarray \<times> layer list" where
  \<comment> \<open>\<^verbatim>\<open>for layer in reversed(layers): output_error = layer.backward(output_error, lr)\<close>:
      the last layer of the list runs first\<close>
  "backward_all [] g lr = Inr (g, [])"
| "backward_all (l # ls) g lr =
     (case backward_all ls g lr of
        Inl e \<Rightarrow> Inl e
      | Inr (g', ls') \<Rightarrow>
          (case backward l g' lr of
             Inl e \<Rightarrow> Inl e
           | Inr (g'', l') \<Rightarrow> Inr (g'', l' # ls')))"

definition label_row :: "ndarray \<Rightarrow> nat \<Rightarrow> real list" where
  \<comment> \<open>the elements of \<^verbatim>\<open>out[label]\<close>, for the index \<open>l\<close> in range on the first axis\<close>
  "label_row out l =
     (let r = prod_list (tl (shape out)) in take r (drop (l * r) (data out)))"

definition init_output_error :: "ndarray \<Rightarrow> int \<Rightarrow> error + ndarray" where
  \<comment> \<open>\<^verbatim>\<open>output_error = np.zeros(out.shape); output_error[label] = -1/out[label]\<close>.
      Dividing by a probability 0 gives \<^verbatim>\<open>-inf\<close>, outside this model.\<close>
  "init_output_error out label =
     (case shape out of
        [] \<Rightarrow> Inl IndexError
      | n # rest \<Rightarrow>
          (case py_index n label of
             Inl e \<Rightarrow> Inl e
           | Inr l \<Rightarrow>
               if 0 \<in> set (label_row out l) then Inl OutsideModel
               else Inr \<lparr>shape = shape out,
                         data = replicate (l * prod_list rest) 0
                                @ map (\<lambda>p. - 1 / p) (label_row out l)
                                @ replicate ((n - l - 1) * prod_list rest) 0\<rparr>))"

definition nll_loss :: "ndarray \<Rightarrow> int \<Rightarrow> error + real" where
  \<comment> \<open>\<^verbatim>\<open>-np.sum(np.log(out[label]))\<close>. The logarithm of a number that is not positive
      is \<^verbatim>\<open>-inf\<close> or \<^verbatim>\<open>nan\<close>, outside this model.\<close>
  "nll_loss out label =
     (case shape out of
        [] \<Rightarrow> Inl IndexError
      | n # rest \<Rightarrow>
          (case py_index n label of
             Inl e \<Rightarrow> Inl e
           | Inr l \<Rightarrow>
               if \<exists>p\<in>set (label_row out l). p \<le> 0 then Inl OutsideModel
               else Inr (- (\<Sum>p\<leftarrow>label_row out l. ln p))))"

definition train ::
  "ndarray \<Rightarrow> int \<Rightarrow> layer list \<Rightarrow> real \<Rightarrow> error + real \<times> nat \<times> layer list" where
  \<comment> \<open>Returns the loss, the accuracy flag and the layers as the call leaves them. The
      state in which a raised exception leaves the layers is not modelled.\<close>
  "train img label layers lr =
     (let out0 = img\<lparr>data := map (\<lambda>v. v / 255 - 0.5) (data img)\<rparr>
      in case forward_all layers out0 of
           Inl e \<Rightarrow> Inl e
         | Inr (out, layers1) \<Rightarrow>
             (case init_output_error out label of
                Inl e \<Rightarrow> Inl e
              | Inr output_error \<Rightarrow>
                  (case backward_all layers1 output_error lr of
                     Inl e \<Rightarrow> Inl e
                   | Inr (input_error, layers2) \<Rightarrow>
                       (case nll_loss out label of
                          Inl e \<Rightarrow> Inl e
                        | Inr loss \<Rightarrow>
                            (case np_argmax (data out) of
                               Inl e \<Rightarrow> Inl e
                             | Inr a \<Rightarrow>
                                 Inr (loss, if int a = label then 1 else 0, layers2))))))"

fun same_params :: "layer \<Rightarrow> layer \<Rightarrow> bool" where
  \<comment> \<open>two layers of the same class with the same parameters; what they cache from
      earlier calls (\<open>input\<close>, \<open>output\<close>, \<open>input_shape\<close>) may differ\<close>
  "same_params (Conv a) (Conv b) \<longleftrightarrow>
     conv_num_filters a = conv_num_filters b \<and> conv_filter_size a = conv_filter_size b
     \<and> conv_filter a = conv_filter b \<and> conv_bias a = conv_bias b"
| "same_params (ReLU a) (ReLU b) \<longleftrightarrow> True"
| "same_params (MaxPool a) (MaxPool b) \<longleftrightarrow> pool_filter_size a = pool_filter_size b"
| "same_params (Flatten a) (Flatten b) \<longleftrightarrow> True"
| "same_params (FC a) (FC b) \<longleftrightarrow>
     fc_input_size a = fc_input_size b \<and> fc_output_size a = fc_output_size b
     \<and> fc_conv_filter a = fc_conv_filter b \<and> fc_bias a = fc_bias b"
| "same_params (Softmax a) (Softmax b) \<longleftrightarrow> True"
| "same_params _ _ \<longleftrightarrow> False"

section \<open>Splitting the data\<close>

definition np_random_choice :: "nat list \<Rightarrow> int \<Rightarrow> nat list \<Rightarrow> error + nat list" where
  \<comment> \<open>\<^verbatim>\<open>np.random.choice(a, size, replace=False)\<close>: the first \<open>sz\<close> elements of a
      random permutation of the positions of \<open>a\<close>. \<open>perm\<close> is the permutation of
      \<open>[0..<length a]\<close> that the generator draws.\<close>
  "np_random_choice a sz perm =
     (if sz < 0 \<or> int (length a) < sz then Inl ValueError
      else Inr (map (\<lambda>p. a ! p) (take (nat sz) perm)))"

definition split_indices :: "nat \<Rightarrow> real \<Rightarrow> nat list \<Rightarrow> error + nat list \<times> nat list" where
  \<comment> \<open>\<open>train_indices\<close> and \<open>val_indices\<close> of \<open>split_data\<close>. Python leaves the order of
      \<^verbatim>\<open>list(set(indices) - set(train_indices))\<close> open; here it is increasing.\<close>
  "split_indices num_samples train_ratio perm =
     (let indices = [0..<num_samples];
          num_train_samples = \<lfloor>real num_samples * train_ratio\<rfloor>
      in case np_random_choice indices num_train_samples perm of
           Inl e \<Rightarrow> Inl e
         | Inr train_indices \<Rightarrow>
             Inr (train_indices, filter (\<lambda>i. i \<notin> set train_indices) indices))"

definition take_rows :: "'a list \<Rightarrow> nat list \<Rightarrow> error + 'a list" where
  \<comment> \<open>\<^verbatim>\<open>A[idx]\<close> for a list of row indices, none negative\<close>
  "take_rows A idx =
     (if \<exists>i\<in>set idx. length A \<le> i then Inl IndexError else Inr (map (\<lambda>i. A ! i) idx))"

definition split_data ::
  "'a list \<Rightarrow> 'b list \<Rightarrow> real \<Rightarrow> nat list \<Rightarrow> error + 'a list \<times> 'b list \<times> 'a list \<times> 'b list" where
  "split_data X Y train_ratio perm =
     (case split_indices (length X) train_ratio perm of
        Inl e \<Rightarrow> Inl e
      | Inr (train_indices, val_indices) \<Rightarrow>
          (case take_rows X train_indices of
             Inl e \<Rightarrow> Inl e
           | Inr X_train \<Rightarrow>
               (case take_rows Y train_indices of
                  Inl e \<Rightarrow> Inl e
                | Inr Y_train \<Rightarrow>
                    (case take_rows X val_indices of
                       Inl e \<Rightarrow> Inl e
                     | Inr X_val \<Rightarrow>
                         (case take_rows Y val_indices of
                            Inl e \<Rightarrow> Inl e
                          | Inr Y_val \<Rightarrow> Inr (X_train, Y_train, X_val, Y_val))))))"

section \<open>Properties of the array operations\<close>

lemma the_max_eq_Max: "xs \<noteq> [] \<Longrightarrow> the_max xs = Max (set xs)"
  by (cases xs) (simp_all add: the_max_def Max.set_eq_fold [symmetric] del: set_simps)

lemma the_max_shift: "xs \<noteq> [] \<Longrightarrow> the_max (map (\<lambda>v. v + c) xs) = the_max xs + c"
proof -
  assume ne: "xs \<noteq> []"
  have "Max (set (map (\<lambda>v. v + c) xs)) = Max ((\<lambda>v. v + c) ` set xs)" by simp
  also have "\<dots> = Max (set xs) + c"
    using ne by (intro mono_Max_commute [symmetric]) (auto simp: mono_def)
  finally show ?thesis using ne by (simp add: the_max_eq_Max)
qed

lemma sum_list_pos: "xs \<noteq> [] \<Longrightarrow> \<forall>x\<in>set xs. 0 < x \<Longrightarrow> 0 < sum_list (xs :: real list)"
  by (induction xs) (auto intro: add_pos_nonneg sum_list_nonneg less_imp_le)

lemma sum_list_div: "sum_list (map (\<lambda>v. v / s) xs) = sum_list xs / (s::real)"
  by (induction xs) (simp_all add: add_divide_distrib)

lemma length_concat_uniform:
  "(\<And>i. i < n \<Longrightarrow> length (r i) = m) \<Longrightarrow> length (concat (map r [0..<n])) = n * m"
  by (induction n) simp_all

lemma index2_less: "i < h \<Longrightarrow> j < w \<Longrightarrow> i * w + j < h * (w::nat)"
proof -
  assume i: "i < h" and j: "j < w"
  have "i * w + j < i * w + w" using j by simp
  also have "\<dots> = Suc i * w" by simp
  also have "\<dots> \<le> h * w" using i by (intro mult_le_mono1) simp
  finally show ?thesis .
qed

lemma nth_concat_uniform:
  assumes "\<And>i. i < n \<Longrightarrow> length (r i) = m" and "i < n" and "j < m"
  shows "concat (map r [0..<n]) ! (i * m + j) = r i ! j"
  using assms
proof (induction n)
  case 0
  then show ?case by simp
next
  case (Suc n)
  have len: "length (concat (map r [0..<n])) = n * m"
    using Suc.prems(1) by (intro length_concat_uniform) simp
  show ?case
  proof (cases "i < n")
    case True
    then have "i * m + j < n * m"
      using Suc.prems(3) by (simp add: index2_less)
    moreover have "concat (map r [0..<n]) ! (i * m + j) = r i ! j"
      using Suc.prems(1) by (intro Suc.IH True Suc.prems(3)) simp
    ultimately show ?thesis
      using len by (simp add: nth_append)
  next
    case False
    then have "i = n" using Suc.prems(2) by simp
    then show ?thesis using len by (simp add: nth_append)
  qed
qed

lemma sum_list_concat_uniform:
  "sum_list (concat (map r [0..<n])) = (\<Sum>i<n. sum_list (r i :: real list))"
  by (induction n) simp_all

lemma sum_list_map_upt: "sum_list (map g [0..<n]) = (\<Sum>i<n. (g i :: real))"
  by (induction n) simp_all

lemma length_rows2 [simp]: "length (rows2 h w g) = h * w"
  by (simp add: rows2_def length_concat_uniform)

lemma nth_rows2: "i < h \<Longrightarrow> j < w \<Longrightarrow> rows2 h w g ! (i * w + j) = g i j"
  by (simp add: rows2_def nth_concat_uniform)

lemma sum_list_rows2: "sum_list (rows2 h w g) = (\<Sum>i<h. \<Sum>j<w. g i j)"
  by (simp add: rows2_def sum_list_concat_uniform sum_list_map_upt)

lemma rows2_cong:
  assumes "\<And>i j. i < h \<Longrightarrow> j < w \<Longrightarrow> g i j = g' i j"
  shows "rows2 h w g = rows2 h w g'"
  unfolding rows2_def
  by (rule arg_cong [where f = concat]) (simp add: assms)

lemma shape_tab2 [simp]: "shape (tab2 h w g) = [h, w]"
  by (simp add: tab2_def)

lemma shape_tab3 [simp]: "shape (tab3 n h w g) = [n, h, w]"
  by (simp add: tab3_def)

lemma length_data_tab2 [simp]: "length (data (tab2 h w g)) = h * w"
  by (simp add: tab2_def)

lemma length_data_tab3 [simp]: "length (data (tab3 n h w g)) = n * h * w"
proof -
  have "length (concat (map (\<lambda>f. rows2 h w (g f)) [0..<n])) = n * (h * w)"
    by (rule length_concat_uniform) simp
  then show ?thesis by (simp add: tab3_def)
qed

lemma wf_tab2 [simp]: "wf (tab2 h w g)"
  by (simp add: wf_def)

lemma wf_tab3 [simp]: "wf (tab3 n h w g)"
  by (simp add: wf_def)

lemma get2_tab2 [simp]: "i < h \<Longrightarrow> j < w \<Longrightarrow> get2 (tab2 h w g) i j = g i j"
  by (simp add: get2_def tab2_def nth_rows2)

lemma get3_tab3 [simp]:
  assumes "f < n" and "i < h" and "j < w"
  shows "get3 (tab3 n h w g) f i j = g f i j"
proof -
  have idx: "(f * h + i) * w + j = f * (h * w) + (i * w + j)"
    by (simp add: algebra_simps)
  have lt: "i * w + j < h * w"
    using assms by (simp add: index2_less)
  have "concat (map (\<lambda>f. rows2 h w (g f)) [0..<n]) ! (f * (h * w) + (i * w + j))
        = rows2 h w (g f) ! (i * w + j)"
    using assms(1) lt by (intro nth_concat_uniform) simp_all
  then show ?thesis
    using assms by (simp add: get3_def tab3_def idx nth_rows2)
qed

lemma np_sum_tab2: "np_sum (tab2 h w g) = (\<Sum>i<h. \<Sum>j<w. g i j)"
  by (simp add: np_sum_def tab2_def sum_list_rows2)

lemma np_sum_tab3: "np_sum (tab3 n h w g) = (\<Sum>f<n. \<Sum>i<h. \<Sum>j<w. g f i j)"
  by (simp add: np_sum_def tab3_def sum_list_concat_uniform sum_list_rows2)

lemma tab2_cong:
  assumes "\<And>i j. i < h \<Longrightarrow> j < w \<Longrightarrow> g i j = g' i j"
  shows "tab2 h w g = tab2 h w g'"
  using rows2_cong [of h w g g'] assms by (simp add: tab2_def)

lemma tab3_cong:
  assumes "\<And>f i j. f < n \<Longrightarrow> i < h \<Longrightarrow> j < w \<Longrightarrow> g f i j = g' f i j"
  shows "tab3 n h w g = tab3 n h w g'"
proof -
  have "map (\<lambda>f. rows2 h w (g f)) [0..<n] = map (\<lambda>f. rows2 h w (g' f)) [0..<n]"
    using assms by (auto intro: rows2_cong)
  then show ?thesis by (simp only: tab3_def)
qed

lemma tab2_get2:
  assumes "shape a = [h, w]" and "wf a"
  shows "a = tab2 h w (get2 a)"
proof -
  have len: "length (data a) = h * w"
    using assms by (simp add: wf_def)
  have "data a = rows2 h w (get2 a)"
  proof (rule nth_equalityI)
    show "length (data a) = length (rows2 h w (get2 a))"
      using len by simp
  next
    fix n assume "n < length (data a)"
    then have n: "n < h * w" using len by simp
    then have w: "0 < w" by (cases w) auto
    have i: "n div w < h" using n w by (simp add: less_mult_imp_div_less)
    have j: "n mod w < w" using w by simp
    have "rows2 h w (get2 a) ! (n div w * w + n mod w) = get2 a (n div w) (n mod w)"
      using i j by (rule nth_rows2)
    moreover have "get2 a (n div w) (n mod w) = data a ! n"
      using assms(1) by (simp add: get2_def)
    ultimately show "data a ! n = rows2 h w (get2 a) ! n"
      by simp
  qed
  then show ?thesis
    using assms(1) by (cases a) (simp add: tab2_def)
qed

lemma tab3_get3:
  assumes "shape a = [n, h, w]" and "wf a"
  shows "a = tab3 n h w (get3 a)"
proof -
  have len: "length (data a) = n * h * w"
    using assms by (simp add: wf_def)
  have "data a = data (tab3 n h w (get3 a))"
  proof (rule nth_equalityI)
    show "length (data a) = length (data (tab3 n h w (get3 a)))"
      using len by simp
  next
    fix m assume "m < length (data a)"
    then have m: "m < (n * h) * w" using len by simp
    then have w: "0 < w" by (cases w) auto
    from m have h: "0 < h" by (cases h) auto
    have q: "m div w < n * h" using m w by (simp add: less_mult_imp_div_less)
    have f: "m div w div h < n" using q h by (simp add: less_mult_imp_div_less)
    have i: "m div w mod h < h" using h by simp
    have j: "m mod w < w" using w by simp
    have "get3 (tab3 n h w (get3 a)) (m div w div h) (m div w mod h) (m mod w)
          = get3 a (m div w div h) (m div w mod h) (m mod w)"
      using f i j by (rule get3_tab3)
    moreover have "get3 b (m div w div h) (m div w mod h) (m mod w) = data b ! m"
      if "shape b = [n, h, w]" for b
      using that by (simp add: get3_def)
    ultimately show "data a ! m = data (tab3 n h w (get3 a)) ! m"
      using assms(1) by simp
  qed
  then show ?thesis
    using assms(1) by (cases a) (simp add: tab3_def)
qed

lemma map2_rows2:
  "map2 op (rows2 h w g) (rows2 h w g') = rows2 h w (\<lambda>i j. op (g i j) (g' i j))"
proof (induction h)
  case 0
  then show ?case by (simp add: rows2_def)
next
  case (Suc h)
  have l: "length (rows2 h w g) = length (rows2 h w g')" by simp
  have "map2 op (map (g h) [0..<w]) (map (g' h) [0..<w]) = map (\<lambda>j. op (g h j) (g' h j)) [0..<w]"
    by (simp add: zip_map_map zip_same_conv_map)
  moreover have "rows2 (Suc h) w k = rows2 h w k @ map (k h) [0..<w]" for k
    by (simp add: rows2_def)
  ultimately show ?case
    using Suc.IH l by (simp only: zip_append map_append)
qed

lemma amul_tab2 [simp]:
  "amul (tab2 h w g) (tab2 h w g') = tab2 h w (\<lambda>i j. g i j * g' i j)"
  by (simp add: amul_def tab2_def map2_rows2)

lemma rows2_const: "rows2 h w (\<lambda>i j. c) = replicate (h * w) c"
  by (induction h) (simp_all add: rows2_def replicate_add map_replicate_const)

lemma np_zeros2: "np_zeros [h, w] = tab2 h w (\<lambda>i j. 0)"
  by (simp add: np_zeros_def tab2_def rows2_const)

lemma slice2_full:
  "shape x = [H, W] \<Longrightarrow> i + k \<le> H \<Longrightarrow> j + k' \<le> W
   \<Longrightarrow> slice2 x i (i + k) j (j + k') = tab2 k k' (\<lambda>a b. get2 x (i + a) (j + b))"
  by (simp add: slice2_def Let_def min_def)

lemma sub0_tab2: "shape a = [n, h, w] \<Longrightarrow> sub0 a f = tab2 h w (get3 a f)"
  by (simp add: sub0_def)

lemma conv_patch_sum:
  assumes "shape x = [H, W]" and "i + k \<le> H" and "j + k \<le> W" and "shape K = [F, k, k]"
  shows "np_sum (amul (slice2 x i (i + k) j (j + k)) (sub0 K f))
         = (\<Sum>a<k. \<Sum>b<k. get2 x (i + a) (j + b) * get3 K f a b)"
  using assms by (simp add: slice2_full sub0_tab2 np_sum_tab2)

lemma argmax_scan_spec:
  assumes "b < length ys" and "\<forall>n<length ys. ys ! n \<le> ys ! b" and "\<forall>n<b. ys ! n < ys ! b"
  shows "argmax_scan (ys ! b) b (length ys) xs < length (ys @ xs)
         \<and> (\<forall>n<length (ys @ xs). (ys @ xs) ! n \<le> (ys @ xs) ! argmax_scan (ys ! b) b (length ys) xs)
         \<and> (\<forall>n<argmax_scan (ys ! b) b (length ys) xs.
               (ys @ xs) ! n < (ys @ xs) ! argmax_scan (ys ! b) b (length ys) xs)"
  using assms
proof (induction xs arbitrary: ys b)
  case Nil
  then show ?case by simp
next
  case (Cons x xs)
  let ?ys = "ys @ [x]"
  show ?case
  proof (cases "ys ! b < x")
    case True
    have 1: "length ys < length ?ys" by simp
    have 2: "\<forall>n<length ?ys. ?ys ! n \<le> ?ys ! length ys"
      using Cons.prems(2) True by (auto simp: nth_append less_Suc_eq intro: less_imp_le order_trans)
    have 3: "\<forall>n<length ys. ?ys ! n < ?ys ! length ys"
      using Cons.prems(2) True by (auto simp: nth_append intro: le_less_trans)
    have step: "argmax_scan (ys ! b) b (length ys) (x # xs)
                = argmax_scan (?ys ! length ys) (length ys) (length ?ys) xs"
      using True by simp
    have app: "ys @ x # xs = ?ys @ xs" by simp
    show ?thesis unfolding step app by (rule Cons.IH [OF 1 2 3])
  next
    case False
    have 1: "b < length ?ys" using Cons.prems(1) by simp
    have 2: "\<forall>n<length ?ys. ?ys ! n \<le> ?ys ! b"
      using Cons.prems(1,2) False by (auto simp: nth_append less_Suc_eq)
    have 3: "\<forall>n<b. ?ys ! n < ?ys ! b"
      using Cons.prems(1,3) by (auto simp: nth_append)
    have step: "argmax_scan (ys ! b) b (length ys) (x # xs)
                = argmax_scan (?ys ! b) b (length ?ys) xs"
      using False Cons.prems(1) by (simp add: nth_append)
    have app: "ys @ x # xs = ?ys @ xs" by simp
    show ?thesis unfolding step app by (rule Cons.IH [OF 1 2 3])
  qed
qed

lemma first_argmax_spec:
  assumes "xs \<noteq> []"
  shows "first_argmax xs < length xs"
    and "\<And>n. n < length xs \<Longrightarrow> xs ! n \<le> xs ! first_argmax xs"
    and "\<And>n. n < first_argmax xs \<Longrightarrow> xs ! n < xs ! first_argmax xs"
proof -
  obtain x r where xs: "xs = x # r" using assms by (cases xs) auto
  have "argmax_scan ([x] ! 0) 0 (length [x]) r < length ([x] @ r)
         \<and> (\<forall>n<length ([x] @ r). ([x] @ r) ! n \<le> ([x] @ r) ! argmax_scan ([x] ! 0) 0 (length [x]) r)
         \<and> (\<forall>n<argmax_scan ([x] ! 0) 0 (length [x]) r.
               ([x] @ r) ! n < ([x] @ r) ! argmax_scan ([x] ! 0) 0 (length [x]) r)"
    by (rule argmax_scan_spec) simp_all
  then have *: "first_argmax xs < length xs
      \<and> (\<forall>n<length xs. xs ! n \<le> xs ! first_argmax xs)
      \<and> (\<forall>n<first_argmax xs. xs ! n < xs ! first_argmax xs)"
    by (simp add: first_argmax_def xs)
  show "first_argmax xs < length xs" using * by blast
  show "\<And>n. n < length xs \<Longrightarrow> xs ! n \<le> xs ! first_argmax xs" using * by blast
  show "\<And>n. n < first_argmax xs \<Longrightarrow> xs ! n < xs ! first_argmax xs" using * by blast
qed

lemma first_argmax_unique:
  assumes "m < length xs" and "\<forall>n<length xs. xs ! n \<le> xs ! m" and "\<forall>n<m. xs ! n < xs ! m"
  shows "first_argmax xs = m"
proof -
  have ne: "xs \<noteq> []" using assms(1) by auto
  note a = first_argmax_spec [OF ne]
  show ?thesis
  proof (rule ccontr)
    assume "first_argmax xs \<noteq> m"
    then consider "first_argmax xs < m" | "m < first_argmax xs" by linarith
    then show False
    proof cases
      case 1
      then have "xs ! first_argmax xs < xs ! m" using assms(3) by blast
      moreover have "xs ! m \<le> xs ! first_argmax xs" using a(2) assms(1) by blast
      ultimately show False by simp
    next
      case 2
      then have "xs ! m < xs ! first_argmax xs" using a(3) by blast
      moreover have "xs ! first_argmax xs \<le> xs ! m" using assms(2) a(1) by blast
      ultimately show False by simp
    qed
  qed
qed

lemma sum_list_update_add:
  "n < length xs \<Longrightarrow> sum_list (xs[n := xs ! n + v]) = sum_list xs + (v::real)"
  by (induction xs arbitrary: n) (auto split: nat.splits)

lemma fold_scatter_shape:
  "shape (fold (\<lambda>p a. a\<lparr>data := (data a)[tgt p := data a ! tgt p + val p]\<rparr>) ps a0) = shape a0
   \<and> length (data (fold (\<lambda>p a. a\<lparr>data := (data a)[tgt p := data a ! tgt p + val p]\<rparr>) ps a0))
       = length (data a0)"
  by (induction ps arbitrary: a0) simp_all

lemma fold_scatter_sum:
  assumes "\<forall>p\<in>set ps. tgt p < length (data a0)"
  shows "sum_list (data (fold (\<lambda>p a. a\<lparr>data := (data a)[tgt p := data a ! tgt p + val p]\<rparr>) ps a0))
         = sum_list (data a0) + sum_list (map val ps)"
  using assms
  by (induction ps arbitrary: a0) (simp_all add: sum_list_update_add)

lemma fold_scatter_nth:
  assumes "n < length (data a0)"
  shows "data (fold (\<lambda>p a. a\<lparr>data := (data a)[tgt p := data a ! tgt p + val p]\<rparr>) ps a0) ! n
         = data a0 ! n + sum_list (map val (filter (\<lambda>p. tgt p = n) ps))"
  using assms
  by (induction ps arbitrary: a0) (auto simp: nth_list_update)

lemma filter_single:
  assumes "distinct ps" and "p0 \<in> set ps" and "\<forall>p\<in>set ps. Q p \<longrightarrow> p = p0"
  shows "filter Q ps = (if Q p0 then [p0] else [])"
  using assms
proof (induction ps)
  case Nil
  then show ?case by simp
next
  case (Cons p ps)
  show ?case
  proof (cases "p = p0")
    case True
    have "p0 \<notin> set ps" using Cons.prems(1) True by simp
    then have "\<forall>q\<in>set ps. \<not> Q q" using Cons.prems(3) by fastforce
    then have "filter Q ps = []" by (rule filter_False)
    then show ?thesis using True by simp
  next
    case False
    then have nq: "\<not> Q p" using Cons.prems(3) by simp
    have "filter Q ps = (if Q p0 then [p0] else [])"
      using Cons.prems False by (intro Cons.IH) simp_all
    then show ?thesis using nq by simp
  qed
qed

lemma sum_list_product:
  "sum_list (map h (List.product xs ys))
   = sum_list (map (\<lambda>x. sum_list (map (\<lambda>y. h (x, y)) ys)) xs :: real list)"
  by (induction xs) (simp_all add: comp_def)

section \<open>The shapes of the parameters\<close>

lemma ConvolutionLayer_init_ok:
  "length randn = num_filters * filter_size * filter_size
   \<Longrightarrow> conv_ok (ConvolutionLayer_init num_filters filter_size randn)"
  by (simp add: conv_ok_def ConvolutionLayer_init_def wf_def np_zeros_def)

lemma FCLayer_init_ok:
  "length r1 = input_size * output_size \<Longrightarrow> length r2 = output_size
   \<Longrightarrow> fc_ok (FCLayer_init input_size output_size r1 r2)"
  by (simp add: fc_ok_def FCLayer_init_def wf_def)

lemma conv_forward_keeps_parameters:
  "conv_forward L inp = Inr (out, L') \<Longrightarrow> conv_ok L \<Longrightarrow> conv_ok L'"
  by (auto simp: conv_forward_def conv_ok_def Let_def split: list.splits if_splits)


lemma conv_backward_step_shapes:
  assumes "shape (fst (snd acc)) = [F, k, k]" and "shape (snd (snd acc)) = [F]"
    and "wf (snd (snd acc))"
  shows "shape (fst (snd (conv_backward_step L X oe f acc))) = [F, k, k]
         \<and> wf (fst (snd (conv_backward_step L X oe f acc)))
         \<and> shape (snd (snd (conv_backward_step L X oe f acc))) = [F]
         \<and> wf (snd (snd (conv_backward_step L X oe f acc)))"
  using assms
  by (cases acc) (simp add: conv_backward_step_def Let_def set0_def wf_def)

lemma conv_backward_fold_shapes:
  assumes "shape (fst (snd acc)) = [F, k, k]" and "wf (fst (snd acc))"
    and "shape (snd (snd acc)) = [F]" and "wf (snd (snd acc))"
  shows "shape (fst (snd (fold (conv_backward_step L X oe) fs acc))) = [F, k, k]
         \<and> wf (fst (snd (fold (conv_backward_step L X oe) fs acc)))
         \<and> shape (snd (snd (fold (conv_backward_step L X oe) fs acc))) = [F]
         \<and> wf (snd (snd (fold (conv_backward_step L X oe) fs acc)))"
  using assms
proof (induction fs arbitrary: acc)
  case Nil
  then show ?case by simp
next
  case (Cons f fs)
  have "shape (fst (snd (conv_backward_step L X oe f acc))) = [F, k, k]
         \<and> wf (fst (snd (conv_backward_step L X oe f acc)))
         \<and> shape (snd (snd (conv_backward_step L X oe f acc))) = [F]
         \<and> wf (snd (snd (conv_backward_step L X oe f acc)))"
    using Cons.prems(1,3,4) by (rule conv_backward_step_shapes)
  then show ?case
    using Cons.IH [of "conv_backward_step L X oe f acc"] by simp
qed

lemma asub_ascale_ok:
  "shape a = s \<Longrightarrow> wf a \<Longrightarrow> shape b = s \<Longrightarrow> wf b
   \<Longrightarrow> shape (asub a (ascale c b)) = s \<and> wf (asub a (ascale c b))"
  by (simp add: asub_def ascale_def wf_def)

lemma conv_backward_keeps_parameter_shapes:
  assumes "conv_backward L oe lr = Inr (g, L')" and "conv_ok L"
  shows "conv_ok L'"
proof -
  define F where "F = conv_num_filters L"
  define k where "k = conv_filter_size L"
  obtain X where X: "conv_input L = Some X"
    using assms(1) by (auto simp: conv_backward_def split: option.splits)
  define r where "r = fold (conv_backward_step L X oe) [0..<F]
     (np_zeros (shape X), np_zeros (shape (conv_filter L)), np_zeros (shape (conv_bias L)))"
  have ok: "shape (conv_filter L) = [F, k, k]" "wf (conv_filter L)"
    "shape (conv_bias L) = [F]" "wf (conv_bias L)"
    using assms(2) by (simp_all add: conv_ok_def F_def k_def)
  have "shape (fst (snd r)) = [F, k, k] \<and> wf (fst (snd r))
        \<and> shape (snd (snd r)) = [F] \<and> wf (snd (snd r))"
    unfolding r_def using ok(1,3)
    by (intro conv_backward_fold_shapes) (simp_all add: np_zeros_def wf_def)
  then have new: "shape (asub (conv_filter L) (ascale lr (fst (snd r)))) = [F, k, k]"
    "wf (asub (conv_filter L) (ascale lr (fst (snd r))))"
    "shape (asub (conv_bias L) (ascale lr (snd (snd r)))) = [F]"
    "wf (asub (conv_bias L) (ascale lr (snd (snd r))))"
    using asub_ascale_ok [OF ok(1,2), of "fst (snd r)" lr]
      asub_ascale_ok [OF ok(3,4), of "snd (snd r)" lr]
    by simp_all
  have "L' = L\<lparr>conv_filter := asub (conv_filter L) (ascale lr (fst (snd r))),
               conv_bias := asub (conv_bias L) (ascale lr (snd (snd r)))\<rparr>"
    using assms(1) X
    by (auto simp: conv_backward_def Let_def r_def F_def
        split: list.splits if_splits prod.splits)
  then show ?thesis
    using new by (simp add: conv_ok_def F_def k_def)
qed

section \<open>Flatten layer: forward, then backward\<close>

text \<open>
  C4. For every 3D input tensor \<open>x\<close> (shape \<open>(a, b, c)\<close>), the forward pass of the flatten
  layer returns the column vector \<open>y\<close> of shape \<open>(a * b * c, 1)\<close> with the elements of \<open>x\<close>
  in row-major order (\<open>y[(f * b + i) * c + j, 0] = x[f, i, j]\<close>), and the backward pass
  applied to \<open>y\<close> unchanged returns \<open>x\<close>: the same shape and the same values.
\<close>

theorem flatten_forward_backward:
  assumes "shape x = [a, b, c]" and "wf x"
  shows "\<exists>y L'. flatten_forward L x = Inr (y, L')
           \<and> shape y = [a * b * c, 1] \<and> data y = data x
           \<and> (\<forall>f i j. get2 y ((f * b + i) * c + j) 0 = get3 x f i j)
           \<and> flatten_backward L' y learning_rate = Inr (x, L')"
proof -
  have x: "x = \<lparr>shape = [a, b, c], data = data x\<rparr>"
    using assms(1) by (cases x) simp
  have len: "length (data x) = a * b * c"
    using assms by (simp add: wf_def)
  show ?thesis
    using assms(1) len x
    by (simp add: flatten_forward_def flatten_backward_def get2_def get3_def)
qed

theorem flatten_forward_backward_witness:
  "wf \<lparr>shape = [1, 2, 2], data = [1, 2, 3, 4]\<rparr>
   \<and> (\<exists>y L'. flatten_forward \<lparr>flatten_input_shape = None\<rparr>
                 \<lparr>shape = [1, 2, 2], data = [1, 2, 3, 4]\<rparr> = Inr (y, L')
          \<and> shape y = [1 * 2 * 2, 1] \<and> data y = data \<lparr>shape = [1, 2, 2], data = [1, 2, 3, 4]\<rparr>
          \<and> (\<forall>f i j. get2 y ((f * 2 + i) * 2 + j) 0
                      = get3 \<lparr>shape = [1, 2, 2], data = [1, 2, 3, 4]\<rparr> f i j)
          \<and> flatten_backward L' y 0 = Inr (\<lparr>shape = [1, 2, 2], data = [1, 2, 3, 4]\<rparr>, L'))"
proof
  show w: "wf \<lparr>shape = [1, 2, 2], data = [1, 2, 3, 4]\<rparr>"
    by (simp add: wf_def)
  show "\<exists>y L'. flatten_forward \<lparr>flatten_input_shape = None\<rparr>
                 \<lparr>shape = [1, 2, 2], data = [1, 2, 3, 4]\<rparr> = Inr (y, L')
          \<and> shape y = [1 * 2 * 2, 1] \<and> data y = data \<lparr>shape = [1, 2, 2], data = [1, 2, 3, 4]\<rparr>
          \<and> (\<forall>f i j. get2 y ((f * 2 + i) * 2 + j) 0
                      = get3 \<lparr>shape = [1, 2, 2], data = [1, 2, 3, 4]\<rparr> f i j)
          \<and> flatten_backward L' y 0 = Inr (\<lparr>shape = [1, 2, 2], data = [1, 2, 3, 4]\<rparr>, L')"
    by (rule flatten_forward_backward [OF _ w]) simp
qed

section \<open>Softmax layer: the forward pass\<close>



text \<open>
  C10. The forward pass of the softmax layer is shift-invariant: adding a constant \<open>c\<close>
  to every entry of the input leaves the result unchanged, the output vector as well as
  the cached one (and the exception on an empty input).
\<close>

theorem softmax_forward_shift_invariant:
  "softmax_forward L (inp\<lparr>data := map (\<lambda>v. v + c) (data inp)\<rparr>) = softmax_forward L inp"
proof (cases "data inp = []")
  case True
  then show ?thesis by (simp add: softmax_forward_def np_max_def split: list.splits)
next
  case False
  then show ?thesis
    by (simp add: softmax_forward_def np_max_def the_max_shift comp_def Let_def
        split: list.splits)
qed

section \<open>Splitting the data: the two index sets\<close>

lemma perm_length: "distinct perm \<Longrightarrow> set perm = {0..<N} \<Longrightarrow> length perm = N"
  using distinct_card [of perm] by simp

lemma floor_ratio_bounds:
  assumes "0 < r" and "r \<le> 1"
  shows "0 \<le> \<lfloor>real N * r\<rfloor>" and "\<lfloor>real N * r\<rfloor> \<le> int N"
proof -
  show "0 \<le> \<lfloor>real N * r\<rfloor>" using assms by simp
  have "real N * r \<le> real N" using assms by (simp add: mult_left_le)
  then show "\<lfloor>real N * r\<rfloor> \<le> int N" by (simp add: floor_le_iff) 
qed

lemma split_indices_partition:
  assumes "0 < r" and "r \<le> 1" and "distinct perm" and "set perm = {0..<N}"
  defines "k \<equiv> nat \<lfloor>real N * r\<rfloor>"
  shows "split_indices N r perm
           = Inr (take k perm, filter (\<lambda>i. i \<notin> set (take k perm)) [0..<N])"
    and "k \<le> N"
proof -
  have b: "0 \<le> \<lfloor>real N * r\<rfloor>" "\<lfloor>real N * r\<rfloor> \<le> int N"
    using floor_ratio_bounds [OF assms(1,2)] by auto
  show "k \<le> N" using b by (simp add: k_def)
  have "map (\<lambda>p. [0..<N] ! p) (take k perm) = take k perm"
    using assms(4) by (intro map_idI) (auto dest!: in_set_takeD)
  then show "split_indices N r perm
           = Inr (take k perm, filter (\<lambda>i. i \<notin> set (take k perm)) [0..<N])"
    using b by (simp add: split_indices_def np_random_choice_def k_def Let_def)
qed



section \<open>Backward passes and the learning rate\<close>

text \<open>
  C9. For the convolution layer and for the fully-connected layer, the input gradient
  that \<open>backward\<close> returns (or the exception it raises) does not depend on the learning
  rate: it is computed from the parameters the layer holds when the call starts, and
  the gradient-descent update comes after it.
\<close>

theorem backward_input_error_independent_of_learning_rate:
  "map_sum id fst (conv_backward C g lr1) = map_sum id fst (conv_backward C g lr2)
   \<and> map_sum id fst (fc_backward D g' lr1) = map_sum id fst (fc_backward D g' lr2)"
  by (simp add: conv_backward_def fc_backward_def Let_def
      split: option.splits list.splits prod.splits sum.splits)

theorem backward_input_error_independent_of_learning_rate_witness:
  "map_sum id fst
     (fc_backward \<lparr>fc_input_size = 3, fc_output_size = 2,
                   fc_conv_filter = \<lparr>shape = [3, 2], data = [1, 2, 3, 4, 5, 6]\<rparr>,
                   fc_bias = \<lparr>shape = [2, 1], data = [10, 20]\<rparr>,
                   fc_input = Some \<lparr>shape = [3, 1], data = [1, 1, 2]\<rparr>,
                   fc_output = Some \<lparr>shape = [2, 1], data = [24, 38]\<rparr>\<rparr>
        \<lparr>shape = [2, 1], data = [1, 10]\<rparr> (1 / 2))
     = Inr \<lparr>shape = [3, 1], data = [21, 43, 65]\<rparr>
   \<and> map_sum id fst
     (fc_backward \<lparr>fc_input_size = 3, fc_output_size = 2,
                   fc_conv_filter = \<lparr>shape = [3, 2], data = [1, 2, 3, 4, 5, 6]\<rparr>,
                   fc_bias = \<lparr>shape = [2, 1], data = [10, 20]\<rparr>,
                   fc_input = Some \<lparr>shape = [3, 1], data = [1, 1, 2]\<rparr>,
                   fc_output = Some \<lparr>shape = [2, 1], data = [24, 38]\<rparr>\<rparr>
        \<lparr>shape = [2, 1], data = [1, 10]\<rparr> 3)
     = Inr \<lparr>shape = [3, 1], data = [21, 43, 65]\<rparr>
   \<and> map_sum id fst
     (conv_backward \<lparr>conv_num_filters = 1, conv_filter_size = 1,
                     conv_filter = \<lparr>shape = [1, 1, 1], data = [1]\<rparr>,
                     conv_bias = \<lparr>shape = [1], data = [0]\<rparr>,
                     conv_input = Some \<lparr>shape = [1, 1], data = [5]\<rparr>\<rparr>
        \<lparr>shape = [1, 1, 1], data = [2]\<rparr> (1 / 2))
     = map_sum id fst
     (conv_backward \<lparr>conv_num_filters = 1, conv_filter_size = 1,
                     conv_filter = \<lparr>shape = [1, 1, 1], data = [1]\<rparr>,
                     conv_bias = \<lparr>shape = [1], data = [0]\<rparr>,
                     conv_input = Some \<lparr>shape = [1, 1], data = [5]\<rparr>\<rparr>
        \<lparr>shape = [1, 1, 1], data = [2]\<rparr> 3)"
proof -
  let ?D = "\<lparr>fc_input_size = 3, fc_output_size = 2,
                   fc_conv_filter = \<lparr>shape = [3, 2], data = [1, 2, 3, 4, 5, 6]\<rparr>,
                   fc_bias = \<lparr>shape = [2, 1], data = [10, 20]\<rparr>,
                   fc_input = Some \<lparr>shape = [3, 1], data = [1, 1, 2]\<rparr>,
                   fc_output = Some \<lparr>shape = [2, 1], data = [24, 38]\<rparr>\<rparr>"
  let ?C = "\<lparr>conv_num_filters = 1, conv_filter_size = 1,
                     conv_filter = \<lparr>shape = [1, 1, 1], data = [1]\<rparr>,
                     conv_bias = \<lparr>shape = [1], data = [0]\<rparr>,
                     conv_input = Some \<lparr>shape = [1, 1], data = [5]\<rparr>\<rparr>"
  have "map_sum id fst (fc_backward ?D \<lparr>shape = [2, 1], data = [1, 10]\<rparr> (1 / 2))
        = Inr \<lparr>shape = [3, 1], data = [21, 43, 65]\<rparr>"
    by code_simp
  then show ?thesis
    using backward_input_error_independent_of_learning_rate
      [of ?C "\<lparr>shape = [1, 1, 1], data = [2]\<rparr>" "1 / 2" 3 ?D "\<lparr>shape = [2, 1], data = [1, 10]\<rparr>"]
    by simp
qed

section \<open>Convolution layer: the forward pass\<close>

text \<open>
  C7. For every single-channel 2D input of height \<open>H\<close> and width \<open>W\<close>, both at least the
  filter size \<open>k\<close>, the forward pass of the convolution layer returns a tensor of shape
  \<open>(num_filters, H - k + 1, W - k + 1)\<close> whose element \<open>[f, i, j]\<close> is the sum of the
  products of the \<open>k\<close> by \<open>k\<close> patch of the input at \<open>(i, j)\<close> with the kernel of filter
  \<open>f\<close>, plus the bias of filter \<open>f\<close>. The layer caches the input.
\<close>


theorem conv_forward_cross_correlation:
  assumes "conv_ok L" and "shape inp = [H, W]"
    and "conv_filter_size L \<le> H" and "conv_filter_size L \<le> W"
  shows "\<exists>out L'. conv_forward L inp = Inr (out, L')
           \<and> shape out = [conv_num_filters L, H - conv_filter_size L + 1, W - conv_filter_size L + 1]
           \<and> wf out
           \<and> (\<forall>f i j. f < conv_num_filters L \<and> i < H - conv_filter_size L + 1
                  \<and> j < W - conv_filter_size L + 1 \<longrightarrow>
                get3 out f i j
                = (\<Sum>a<conv_filter_size L. \<Sum>b<conv_filter_size L.
                     get2 inp (i + a) (j + b) * get3 (conv_filter L) f a b)
                  + data (conv_bias L) ! f)
           \<and> conv_input L' = Some inp"
proof -
  define k where "k = conv_filter_size L"
  define F where "F = conv_num_filters L"
  have K: "shape (conv_filter L) = [F, k, k]"
    using assms(1) by (simp add: conv_ok_def k_def F_def)
  have oh: "nat (int H - int k + 1) = H - k + 1" and ow: "nat (int W - int k + 1) = W - k + 1"
    using assms(3,4) by (simp_all add: k_def)
  define g where "g = (\<lambda>f i j. np_sum (amul (slice2 inp i (i + k) j (j + k)) (sub0 (conv_filter L) f))
                                  + data (conv_bias L) ! f)"
  have fw: "conv_forward L inp = Inr (tab3 F (H - k + 1) (W - k + 1) g, L\<lparr>conv_input := Some inp\<rparr>)"
    using assms(2-4) oh ow by (simp add: conv_forward_def Let_def k_def F_def g_def)
  have el: "get3 (tab3 F (H - k + 1) (W - k + 1) g) f i j
            = (\<Sum>a<k. \<Sum>b<k. get2 inp (i + a) (j + b) * get3 (conv_filter L) f a b)
              + data (conv_bias L) ! f"
    if "f < F" "i < H - k + 1" "j < W - k + 1" for f i j
  proof -
    have "i + k \<le> H" "j + k \<le> W" using that assms(3,4) by (simp_all add: k_def)
    then show ?thesis
      using that by (simp add: g_def conv_patch_sum [OF assms(2) _ _ K])
  qed
  show ?thesis
    unfolding k_def [symmetric] F_def [symmetric]
    using fw el by simp
qed

theorem conv_forward_cross_correlation_witness:
  "conv_ok \<lparr>conv_num_filters = 2, conv_filter_size = 2,
            conv_filter = \<lparr>shape = [2, 2, 2], data = [1, 2, 3, 4, 0, 1, 0, - 1]\<rparr>,
            conv_bias = \<lparr>shape = [2], data = [10, 20]\<rparr>, conv_input = None\<rparr>
   \<and> (\<exists>out L'.
         conv_forward \<lparr>conv_num_filters = 2, conv_filter_size = 2,
            conv_filter = \<lparr>shape = [2, 2, 2], data = [1, 2, 3, 4, 0, 1, 0, - 1]\<rparr>,
            conv_bias = \<lparr>shape = [2], data = [10, 20]\<rparr>, conv_input = None\<rparr>
           \<lparr>shape = [2, 3], data = [1, 2, 3, 4, 5, 6]\<rparr> = Inr (out, L')
         \<and> shape out = [2, 1, 2]
         \<and> get3 out 0 0 0 = 47 \<and> get3 out 0 0 1 = 57 \<and> get3 out 1 0 0 = 17 \<and> get3 out 1 0 1 = 17)"
proof
  let ?L = "\<lparr>conv_num_filters = 2, conv_filter_size = 2,
            conv_filter = \<lparr>shape = [2, 2, 2], data = [1, 2, 3, 4, 0, 1, 0, - 1]\<rparr>,
            conv_bias = \<lparr>shape = [2], data = [10, 20]\<rparr>, conv_input = None\<rparr>"
  let ?X = "\<lparr>shape = [2, 3], data = [1, 2, 3, 4, 5, 6]\<rparr>"
  show ok: "conv_ok ?L" by (simp add: conv_ok_def wf_def)
  have sh: "shape ?X = [2, 3]" by simp
  from conv_forward_cross_correlation [OF ok sh]
  obtain out L' where fw: "conv_forward ?L ?X = Inr (out, L')"
    and s: "shape out = [2, 1, 2]"
    and el: "\<And>f i j. f < 2 \<Longrightarrow> i < 1 \<Longrightarrow> j < 2 \<Longrightarrow>
          get3 out f i j = (\<Sum>a<2. \<Sum>b<2. get2 ?X (i + a) (j + b) * get3 (conv_filter ?L) f a b)
              + data (conv_bias ?L) ! f"
    by auto
  have two: "{..<2::nat} = {0, 1}" by auto
  have "get3 out 0 0 0 = 47" "get3 out 0 0 1 = 57" "get3 out 1 0 0 = 17" "get3 out 1 0 1 = 17"
    by (subst el; simp add: two get2_def get3_def)+
  with fw s show "\<exists>out L'. conv_forward ?L ?X = Inr (out, L')
         \<and> shape out = [2, 1, 2]
         \<and> get3 out 0 0 0 = 47 \<and> get3 out 0 0 1 = 57 \<and> get3 out 1 0 0 = 17 \<and> get3 out 1 0 1 = 17"
    by blast
qed

section \<open>Max-pooling layer: the backward pass\<close>

lemma index3_less:
  assumes "f < n" and "i < h" and "j < w"
  shows "(f * h + i) * w + j < n * h * (w::nat)"
proof -
  have "f * h + i < n * h" using assms(1,2) by (rule index2_less)
  then show ?thesis using assms(3) by (rule index2_less)
qed

lemma index2_inj:
  assumes "j < w" and "j' < w" and "i * w + j = i' * w + (j'::nat)"
  shows "i = i' \<and> j = j'"
proof -
  have "(i * w + j) div w = i" "(i' * w + j') div w = i'"
    "(i * w + j) mod w = j" "(i' * w + j') mod w = j'"
    using assms(1,2) by simp_all
  then show ?thesis using assms(3) by metis
qed

lemma index3_inj:
  assumes "i < h" and "i' < h" and "j < w" and "j' < w"
    and "(f * h + i) * w + j = (f' * h + i') * w + (j'::nat)"
  shows "f = f' \<and> i = i' \<and> j = j'"
proof -
  have "f * h + i = f' * h + i' \<and> j = j'"
    using assms(3,4,5) by (rule index2_inj)
  then show ?thesis
    using index2_inj [OF assms(1,2)] by blast
qed

lemma block_index:
  assumes "m < (k::nat)" and "i * k + m = I"
  shows "i = I div k" and "m = I mod k"
  using assms by auto

lemma pool_region_tab2:
  assumes "shape inp = [F, H, W]" and "(i + 1) * k \<le> H" and "(j + 1) * k \<le> W"
  shows "pool_region inp k f i j = tab2 k k (\<lambda>a b. get3 inp f (i * k + a) (j * k + b))"
proof -
  have "slice2 (sub0 inp f) (i * k) (i * k + k) (j * k) (j * k + k)
        = tab2 k k (\<lambda>a b. get2 (sub0 inp f) (i * k + a) (j * k + b))"
    using assms by (intro slice2_full [where H = H and W = W]) (simp_all add: sub0_tab2)
  also have "\<dots> = tab2 k k (\<lambda>a b. get3 inp f (i * k + a) (j * k + b))"
  proof (rule tab2_cong)
    fix a b assume "a < k" "b < k"
    then have "i * k + a < H" "j * k + b < W" using assms(2,3) by simp_all
    then show "get2 (sub0 inp f) (i * k + a) (j * k + b) = get3 inp f (i * k + a) (j * k + b)"
      using assms(1) by (simp add: sub0_tab2)
  qed
  finally show ?thesis by (simp add: pool_region_def add.commute)
qed

lemma first_argmax_rows2:
  assumes "a0 < k" and "b0 < k"
  shows "first_argmax (rows2 k k B) = a0 * k + b0
         \<longleftrightarrow> (\<forall>a<k. \<forall>b<k. B a b \<le> B a0 b0 \<and> (a * k + b < a0 * k + b0 \<longrightarrow> B a b < B a0 b0))"
proof
  assume eq: "first_argmax (rows2 k k B) = a0 * k + b0"
  have ne: "rows2 k k B \<noteq> []"
    using assms by (auto simp flip: length_0_conv)
  show "\<forall>a<k. \<forall>b<k. B a b \<le> B a0 b0 \<and> (a * k + b < a0 * k + b0 \<longrightarrow> B a b < B a0 b0)"
  proof (intro allI impI conjI)
    fix a b assume ab: "a < k" "b < k"
    have "rows2 k k B ! (a * k + b) \<le> rows2 k k B ! first_argmax (rows2 k k B)"
      using ab by (intro first_argmax_spec(2) [OF ne]) (simp add: index2_less)
    then show "B a b \<le> B a0 b0"
      using ab assms by (simp add: eq nth_rows2)
    assume "a * k + b < a0 * k + b0"
    then have "rows2 k k B ! (a * k + b) < rows2 k k B ! first_argmax (rows2 k k B)"
      by (intro first_argmax_spec(3) [OF ne]) (simp add: eq)
    then show "B a b < B a0 b0"
      using ab assms by (simp add: eq nth_rows2)
  qed
next
  assume r: "\<forall>a<k. \<forall>b<k. B a b \<le> B a0 b0 \<and> (a * k + b < a0 * k + b0 \<longrightarrow> B a b < B a0 b0)"
  have k: "0 < k" using assms by simp
  have nth: "rows2 k k B ! n = B (n div k) (n mod k)" if "n < k * k" for n
  proof -
    have "n div k < k" "n mod k < k" using that k by (simp_all add: less_mult_imp_div_less)
    then have "rows2 k k B ! (n div k * k + n mod k) = B (n div k) (n mod k)"
      by (rule nth_rows2)
    then show ?thesis by simp
  qed
  have m: "a0 * k + b0 < k * k" using assms by (rule index2_less)
  have at: "rows2 k k B ! (a0 * k + b0) = B a0 b0" using assms by (rule nth_rows2)
  show "first_argmax (rows2 k k B) = a0 * k + b0"
  proof (rule first_argmax_unique)
    show "a0 * k + b0 < length (rows2 k k B)" using m by simp
    show "\<forall>n<length (rows2 k k B). rows2 k k B ! n \<le> rows2 k k B ! (a0 * k + b0)"
    proof (intro allI impI)
      fix n assume "n < length (rows2 k k B)"
      then have n: "n < k * k" by simp
      then have "n div k < k" "n mod k < k" using k by (simp_all add: less_mult_imp_div_less)
      then show "rows2 k k B ! n \<le> rows2 k k B ! (a0 * k + b0)"
        using r by (simp add: nth [OF n] at)
    qed
    show "\<forall>n<a0 * k + b0. rows2 k k B ! n < rows2 k k B ! (a0 * k + b0)"
    proof (intro allI impI)
      fix n assume lt: "n < a0 * k + b0"
      then have n: "n < k * k" using m by simp
      then have d: "n div k < k" "n mod k < k" using k by (simp_all add: less_mult_imp_div_less)
      have "n div k * k + n mod k < a0 * k + b0" using lt by simp
      then have "B (n div k) (n mod k) < B a0 b0" using r d by blast
      then show "rows2 k k B ! n < rows2 k k B ! (a0 * k + b0)"
        by (simp add: nth [OF n] at)
    qed
  qed
qed

lemma pool_backward_fold:
  assumes "shape a0 = [F, H, W]"
  shows "fold (pool_backward_step k inp oe) ps a0
         = fold (\<lambda>p a. a\<lparr>data := (data a)
                   [(case p of (f, i, j) \<Rightarrow>
                       (f * H + (i * k + fst (pool_max_index k inp f i j))) * W
                       + (j * k + snd (pool_max_index k inp f i j)))
                    := data a ! (case p of (f, i, j) \<Rightarrow>
                       (f * H + (i * k + fst (pool_max_index k inp f i j))) * W
                       + (j * k + snd (pool_max_index k inp f i j)))
                       + (case p of (f, i, j) \<Rightarrow> get3 oe f i j)]\<rparr>) ps a0"
  using assms
proof (induction ps arbitrary: a0)
  case Nil
  then show ?case by simp
next
  case (Cons p ps)
  obtain f i j where p: "p = (f, i, j)" by (cases p) auto
  have "shape (pool_backward_step k inp oe p a0) = [F, H, W]"
    using Cons.prems by (simp add: p pool_backward_step_def add_at3_def Let_def)
  then have "fold (pool_backward_step k inp oe) ps (pool_backward_step k inp oe p a0)
      = fold (\<lambda>p a. a\<lparr>data := (data a)
                   [(case p of (f, i, j) \<Rightarrow>
                       (f * H + (i * k + fst (pool_max_index k inp f i j))) * W
                       + (j * k + snd (pool_max_index k inp f i j)))
                    := data a ! (case p of (f, i, j) \<Rightarrow>
                       (f * H + (i * k + fst (pool_max_index k inp f i j))) * W
                       + (j * k + snd (pool_max_index k inp f i j)))
                       + (case p of (f, i, j) \<Rightarrow> get3 oe f i j)]\<rparr>) ps
          (pool_backward_step k inp oe p a0)"
    by (rule Cons.IH)
  moreover have "pool_backward_step k inp oe p a0
      = a0\<lparr>data := (data a0)
             [(f * H + (i * k + fst (pool_max_index k inp f i j))) * W
                + (j * k + snd (pool_max_index k inp f i j))
              := data a0 ! ((f * H + (i * k + fst (pool_max_index k inp f i j))) * W
                + (j * k + snd (pool_max_index k inp f i j))) + get3 oe f i j]\<rparr>"
    using Cons.prems by (simp add: p pool_backward_step_def add_at3_def Let_def)
  ultimately show ?case by (simp add: p)
qed

lemma pool_max_index_block:
  assumes "shape inp = [F, H, W]" and "0 < k" and "i < H div k" and "j < W div k"
  shows "fst (pool_max_index k inp f i j) < k"
    and "snd (pool_max_index k inp f i j) < k"
    and "a0 < k \<Longrightarrow> b0 < k \<Longrightarrow>
         pool_max_index k inp f i j = (a0, b0)
         \<longleftrightarrow> (\<forall>a<k. \<forall>b<k. get3 inp f (i * k + a) (j * k + b) \<le> get3 inp f (i * k + a0) (j * k + b0)
                \<and> (a * k + b < a0 * k + b0
                    \<longrightarrow> get3 inp f (i * k + a) (j * k + b) < get3 inp f (i * k + a0) (j * k + b0)))"
proof -
  define B where "B = (\<lambda>a b. get3 inp f (i * k + a) (j * k + b))"
  have le: "(i + 1) * k \<le> H" "(j + 1) * k \<le> W"
  proof -
    have "Suc i * k \<le> H div k * k" using assms(3) by (intro mult_le_mono1) simp
    also have "\<dots> \<le> H" by simp
    finally show "(i + 1) * k \<le> H" by simp
    have "Suc j * k \<le> W div k * k" using assms(4) by (intro mult_le_mono1) simp
    also have "\<dots> \<le> W" by simp
    finally show "(j + 1) * k \<le> W" by simp
  qed
  have reg: "data (pool_region inp k f i j) = rows2 k k B"
    using pool_region_tab2 [OF assms(1) le] by (simp add: tab2_def B_def)
  have ne: "rows2 k k B \<noteq> []"
    using assms(2) by (auto simp flip: length_0_conv)
  have m: "first_argmax (rows2 k k B) < k * k"
    using first_argmax_spec(1) [OF ne] by simp
  show "fst (pool_max_index k inp f i j) < k"
    using m assms(2) by (simp add: pool_max_index_def np_unravel_index_def reg less_mult_imp_div_less)
  show "snd (pool_max_index k inp f i j) < k"
    using assms(2) by (simp add: pool_max_index_def np_unravel_index_def)
  assume ab: "a0 < k" "b0 < k"
  have "pool_max_index k inp f i j = (a0, b0) \<longleftrightarrow> first_argmax (rows2 k k B) = a0 * k + b0"
  proof
    assume "pool_max_index k inp f i j = (a0, b0)"
    then have "first_argmax (rows2 k k B) div k = a0" "first_argmax (rows2 k k B) mod k = b0"
      by (simp_all add: pool_max_index_def np_unravel_index_def reg)
    then show "first_argmax (rows2 k k B) = a0 * k + b0"
      by (metis div_mult_mod_eq)
  next
    assume "first_argmax (rows2 k k B) = a0 * k + b0"
    then show "pool_max_index k inp f i j = (a0, b0)"
      using ab by (simp add: pool_max_index_def np_unravel_index_def reg)
  qed
  then show "pool_max_index k inp f i j = (a0, b0)
         \<longleftrightarrow> (\<forall>a<k. \<forall>b<k. get3 inp f (i * k + a) (j * k + b) \<le> get3 inp f (i * k + a0) (j * k + b0)
                \<and> (a * k + b < a0 * k + b0
                    \<longrightarrow> get3 inp f (i * k + a) (j * k + b) < get3 inp f (i * k + a0) (j * k + b0)))"
    using first_argmax_rows2 [OF ab, of B] by (simp add: B_def)
qed

lemma sum_list_positions3:
  "sum_list (map (\<lambda>p. case p of (f, i, j) \<Rightarrow> v f i j)
      (List.product [0..<n] (List.product [0..<h] [0..<w])))
   = (\<Sum>f<n. \<Sum>i<h. \<Sum>j<w. (v f i j :: real))"
  by (simp add: sum_list_product sum_list_map_upt)



section \<open>Convolution layer: the backward pass\<close>

lemma get2_np_pad:
  assumes "shape a = [h, w]" and "r < h + 2 * p" and "c < w + 2 * p"
  shows "get2 (np_pad a p) r c
         = (if p \<le> r \<and> r < p + h \<and> p \<le> c \<and> c < p + w then get2 a (r - p) (c - p) else 0)"
  using assms by (simp add: np_pad_def Let_def)

lemma shape_np_pad: "shape a = [h, w] \<Longrightarrow> shape (np_pad a p) = [h + 2 * p, w + 2 * p]"
  by (simp add: np_pad_def Let_def)

lemma np_rot90_2_tab2:
  "shape a = [h, w] \<Longrightarrow> np_rot90_2 a = tab2 h w (\<lambda>i j. get2 a (h - 1 - i) (w - 1 - j))"
  by (simp add: np_rot90_2_def Let_def)

lemma conv_backward_step_fst:
  "fst (conv_backward_step L X oe f acc)
   = tab2 (shape X ! 0) (shape X ! 1)
       (\<lambda>i j. get2 (fst acc) i j
              + np_sum (amul (slice2 (np_pad (sub0 oe f) (conv_filter_size L - 1))
                                 i (i + conv_filter_size L) j (j + conv_filter_size L))
                             (np_rot90_2 (sub0 (conv_filter L) f))))"
  by (cases acc) (simp add: conv_backward_step_def Let_def)

lemma fold_fst_accumulate:
  assumes "\<And>f acc. fst (step f acc) = tab2 H W (\<lambda>i j. get2 (fst acc) i j + c f i j)"
  shows "fst (fold step [0..<n] (tab2 H W s, r))
         = tab2 H W (\<lambda>i j. s i j + (\<Sum>f<n. c f i j))"
proof (induction n)
  case 0
  then show ?case by simp
next
  case (Suc n)
  have "fst (fold step [0..<Suc n] (tab2 H W s, r))
        = fst (step n (fold step [0..<n] (tab2 H W s, r)))"
    by simp
  also have "\<dots> = tab2 H W (\<lambda>i j. get2 (tab2 H W (\<lambda>i j. s i j + (\<Sum>f<n. c f i j))) i j + c n i j)"
    by (simp only: assms Suc.IH)
  also have "\<dots> = tab2 H W (\<lambda>i j. s i j + (\<Sum>f<Suc n. c f i j))"
    by (rule tab2_cong) simp
  finally show ?case .
qed

lemma conv_backward_fold_fst:
  assumes "shape X = [H, W]"
  shows "fst (fold (conv_backward_step L X oe) [0..<n]
                (np_zeros (shape X), np_zeros s1, np_zeros s2))
         = tab2 H W (\<lambda>i j. \<Sum>f<n.
              np_sum (amul (slice2 (np_pad (sub0 oe f) (conv_filter_size L - 1))
                                 i (i + conv_filter_size L) j (j + conv_filter_size L))
                             (np_rot90_2 (sub0 (conv_filter L) f))))"
  using fold_fst_accumulate [of "conv_backward_step L X oe" H W _ n "\<lambda>i j. 0"
      "(np_zeros s1, np_zeros s2)"] assms
  by (simp add: conv_backward_step_fst np_zeros2)

lemma conv_backward_patch_sum:
  assumes "shape oe = [F, OH, OW]" and "shape K = [F, k, k]" and "0 < k"
    and "i < OH + k - 1" and "j < OW + k - 1"
  shows "np_sum (amul (slice2 (np_pad (sub0 oe f) (k - 1)) i (i + k) j (j + k))
                      (np_rot90_2 (sub0 K f)))
         = (\<Sum>a<k. \<Sum>b<k. get2 (np_pad (sub0 oe f) (k - 1)) (i + a) (j + b)
                            * get2 (np_rot90_2 (sub0 K f)) a b)"
proof -
  have s: "shape (np_pad (sub0 oe f) (k - 1)) = [OH + 2 * (k - 1), OW + 2 * (k - 1)]"
    using assms(1) by (simp add: shape_np_pad sub0_tab2)
  have "slice2 (np_pad (sub0 oe f) (k - 1)) i (i + k) j (j + k)
        = tab2 k k (\<lambda>a b. get2 (np_pad (sub0 oe f) (k - 1)) (i + a) (j + b))"
    using s assms(3-5) by (intro slice2_full [OF s]) simp_all
  moreover have "np_rot90_2 (sub0 K f) = tab2 k k (get2 (np_rot90_2 (sub0 K f)))"
    using assms(2) by (intro tab2_get2) (simp_all add: np_rot90_2_def sub0_tab2 Let_def)
  ultimately show ?thesis
    by (metis amul_tab2 np_sum_tab2)
qed

lemma get2_rot_kernel:
  assumes "shape K = [F, k, k]" and "a < k" and "b < k"
  shows "get2 (np_rot90_2 (sub0 K f)) a b = get3 K f (k - 1 - a) (k - 1 - b)"
  using assms by (simp add: np_rot90_2_tab2 sub0_tab2)

lemma get2_pad_gradient:
  assumes "shape oe = [F, OH, OW]" and "r < OH + 2 * p" and "c < OW + 2 * p"
  shows "get2 (np_pad (sub0 oe f) p) r c
         = (if p \<le> r \<and> r < p + OH \<and> p \<le> c \<and> c < p + OW then get3 oe f (r - p) (c - p) else 0)"
proof -
  have "get2 (np_pad (sub0 oe f) p) r c
         = (if p \<le> r \<and> r < p + OH \<and> p \<le> c \<and> c < p + OW
            then get2 (sub0 oe f) (r - p) (c - p) else 0)"
    using assms by (intro get2_np_pad) (simp_all add: sub0_tab2)
  also have "\<dots> = (if p \<le> r \<and> r < p + OH \<and> p \<le> c \<and> c < p + OW
            then get3 oe f (r - p) (c - p) else 0)"
    using assms(1) by (auto simp: sub0_tab2)
  finally show ?thesis .
qed

lemma sum_shift_window:
  assumes "p + n \<le> (m::nat)"
  shows "(\<Sum>i<m. if p \<le> i \<and> i < p + n then h i (i - p) else 0) = (\<Sum>i<n. (h (i + p) i :: real))"
proof -
  have "(\<Sum>i<m. if p \<le> i \<and> i < p + n then h i (i - p) else 0)
        = (\<Sum>i\<in>{i \<in> {..<m}. p \<le> i \<and> i < p + n}. h i (i - p))"
    by (rule sum.inter_filter [symmetric]) simp
  also have "{i \<in> {..<m}. p \<le> i \<and> i < p + n} = {0 + p..<n + p}"
    using assms by auto
  also have "(\<Sum>i\<in>{0 + p..<n + p}. h i (i - p)) = (\<Sum>i\<in>{0..<n}. h (i + p) (i + p - p))"
    by (rule sum.shift_bounds_nat_ivl)
  finally show ?thesis by (simp add: atLeast0LessThan)
qed

lemma sum_shift_window2:
  assumes "p + n \<le> (m::nat)" and "q + n' \<le> (m'::nat)"
  shows "(\<Sum>i<m. \<Sum>j<m'. if (p \<le> i \<and> i < p + n) \<and> (q \<le> j \<and> j < q + n')
                          then t i j (i - p) (j - q) else 0)
         = (\<Sum>i<n. \<Sum>j<n'. (t (i + p) (j + q) i j :: real))"
proof -
  have "(\<Sum>i<m. \<Sum>j<m'. if (p \<le> i \<and> i < p + n) \<and> (q \<le> j \<and> j < q + n')
                          then t i j (i - p) (j - q) else 0)
        = (\<Sum>i<m. if p \<le> i \<and> i < p + n
                   then (\<Sum>j<m'. if q \<le> j \<and> j < q + n' then t i j (i - p) (j - q) else 0)
                   else 0)"
  proof (rule sum.cong [OF refl])
    fix i
    show "(\<Sum>j<m'. if (p \<le> i \<and> i < p + n) \<and> (q \<le> j \<and> j < q + n')
                          then t i j (i - p) (j - q) else 0)
          = (if p \<le> i \<and> i < p + n
                   then (\<Sum>j<m'. if q \<le> j \<and> j < q + n' then t i j (i - p) (j - q) else 0)
                   else 0)"
    proof (cases "p \<le> i \<and> i < p + n")
      case True
      then show ?thesis by simp
    next
      case False
      then have z: "(if (p \<le> i \<and> i < p + n) \<and> (q \<le> j \<and> j < q + n')
                  then t i j (i - p) (j - q) else 0) = 0" for j
        by auto
      show ?thesis unfolding z by (simp only: False if_False sum.neutral_const)
    qed
  qed
  also have "\<dots> = (\<Sum>i<n. \<Sum>j<m'. if q \<le> j \<and> j < q + n' then t (i + p) j i (j - q) else 0)"
    using assms(1)
    by (rule sum_shift_window
        [where h = "\<lambda>i i'. \<Sum>j<m'. if q \<le> j \<and> j < q + n' then t i j i' (j - q) else 0"])
  also have "\<dots> = (\<Sum>i<n. \<Sum>j<n'. t (i + p) (j + q) i j)"
    by (rule sum.cong [OF refl])
      (rule sum_shift_window [OF assms(2), where h = "\<lambda>j j'. t (_ + p) j _ j'"])
  finally show ?thesis .
qed

lemma sum_swap4:
  "(\<Sum>i<(A::nat). \<Sum>j<(B::nat). \<Sum>p<(C::nat). \<Sum>q<(D::nat). (t i j p q :: real))
   = (\<Sum>p<C. \<Sum>q<D. \<Sum>i<A. \<Sum>j<B. t i j p q)"
proof -
  have "(\<Sum>i<A. \<Sum>j<B. \<Sum>p<C. \<Sum>q<D. t i j p q) = (\<Sum>i<A. \<Sum>p<C. \<Sum>j<B. \<Sum>q<D. t i j p q)"
    by (rule sum.cong [OF refl]) (rule sum.swap)
  also have "\<dots> = (\<Sum>p<C. \<Sum>i<A. \<Sum>j<B. \<Sum>q<D. t i j p q)"
    by (rule sum.swap)
  also have "\<dots> = (\<Sum>p<C. \<Sum>i<A. \<Sum>q<D. \<Sum>j<B. t i j p q)"
    by (intro sum.cong [OF refl]) (rule sum.swap)
  also have "\<dots> = (\<Sum>p<C. \<Sum>q<D. \<Sum>i<A. \<Sum>j<B. t i j p q)"
    by (rule sum.cong [OF refl]) (rule sum.swap)
  finally show ?thesis .
qed

lemma sum_flip: "(\<Sum>a<(k::nat). (g (k - 1 - a) :: real)) = (\<Sum>p<k. g p)"
  using sum.nat_diff_reindex [of g k] by simp

lemma kernel_flip:
  fixes k i j OH OW :: nat
  assumes "0 < k"
  shows "(\<Sum>a<k. \<Sum>b<k.
            (if k - 1 \<le> i + a \<and> i + a < k - 1 + OH \<and> k - 1 \<le> j + b \<and> j + b < k - 1 + OW
             then gf (i + a - (k - 1)) (j + b - (k - 1)) else 0) * kf (k - 1 - a) (k - 1 - b))
         = (\<Sum>p<k. \<Sum>q<k.
             (if (p \<le> i \<and> i < p + OH) \<and> (q \<le> j \<and> j < q + OW)
              then gf (i - p) (j - q) else (0::real)) * kf p q)"
proof -
  define G where "G = (\<lambda>p q.
            (if k - 1 \<le> i + (k - 1 - p) \<and> i + (k - 1 - p) < k - 1 + OH
                \<and> k - 1 \<le> j + (k - 1 - q) \<and> j + (k - 1 - q) < k - 1 + OW
             then gf (i + (k - 1 - p) - (k - 1)) (j + (k - 1 - q) - (k - 1)) else 0) * kf p q)"
  have inv: "k - 1 - (k - 1 - a) = a" if "a < k" for a
    using that by arith
  have "(\<Sum>a<k. \<Sum>b<k.
            (if k - 1 \<le> i + a \<and> i + a < k - 1 + OH \<and> k - 1 \<le> j + b \<and> j + b < k - 1 + OW
             then gf (i + a - (k - 1)) (j + b - (k - 1)) else 0) * kf (k - 1 - a) (k - 1 - b))
        = (\<Sum>a<k. \<Sum>b<k. G (k - 1 - a) (k - 1 - b))"
    unfolding G_def by (intro sum.cong refl) (simp add: inv)
  also have "\<dots> = (\<Sum>a<k. \<Sum>q<k. G (k - 1 - a) q)"
  proof (rule sum.cong [OF refl])
    fix a
    show "(\<Sum>b<k. G (k - 1 - a) (k - 1 - b)) = (\<Sum>q<k. G (k - 1 - a) q)"
      by (rule sum_flip [where g = "G (k - 1 - a)"])
  qed
  also have "\<dots> = (\<Sum>p<k. \<Sum>q<k. G p q)"
    by (rule sum_flip [where g = "\<lambda>p. \<Sum>q<k. G p q"])
  also have "\<dots> = (\<Sum>p<k. \<Sum>q<k.
             (if (p \<le> i \<and> i < p + OH) \<and> (q \<le> j \<and> j < q + OW)
              then gf (i - p) (j - q) else 0) * kf p q)"
  proof (intro sum.cong refl)
    fix p q assume "p \<in> {..<k}" "q \<in> {..<k}"
    then have pq: "p \<le> k - 1" "q \<le> k - 1" using assms by auto
    have c1: "k - 1 \<le> i + (k - 1 - p) \<longleftrightarrow> p \<le> i" "i + (k - 1 - p) < k - 1 + OH \<longleftrightarrow> i < p + OH"
      "k - 1 \<le> j + (k - 1 - q) \<longleftrightarrow> q \<le> j" "j + (k - 1 - q) < k - 1 + OW \<longleftrightarrow> j < q + OW"
      using pq by auto
    have c2: "i + (k - 1 - p) - (k - 1) = i - p" "j + (k - 1 - q) - (k - 1) = j - q"
      using pq by auto
    show "G p q = (if (p \<le> i \<and> i < p + OH) \<and> (q \<le> j \<and> j < q + OW)
              then gf (i - p) (j - q) else 0) * kf p q"
      unfolding G_def c1 c2 by simp
  qed
  finally show ?thesis .
qed

lemma conv_adjoint_filter:
  fixes k H W OH OW :: nat
  assumes "0 < k" and "H = OH + (k - 1)" and "W = OW + (k - 1)"
  shows "(\<Sum>i<OH. \<Sum>j<OW. (\<Sum>p<k. \<Sum>q<k. z (i + p) (j + q) * kf p q) * gf i j)
         = (\<Sum>i<H. \<Sum>j<W. z i j * (\<Sum>a<k. \<Sum>b<k.
              (if k - 1 \<le> i + a \<and> i + a < k - 1 + OH \<and> k - 1 \<le> j + b \<and> j + b < k - 1 + OW
               then gf (i + a - (k - 1)) (j + b - (k - 1)) else 0)
              * (kf (k - 1 - a) (k - 1 - b) :: real)))"
proof -
  define T where "T = (\<lambda>p q i j i' j'. z i j * gf i' j' * kf p q)"
  have "(\<Sum>i<H. \<Sum>j<W. z i j * (\<Sum>a<k. \<Sum>b<k.
              (if k - 1 \<le> i + a \<and> i + a < k - 1 + OH \<and> k - 1 \<le> j + b \<and> j + b < k - 1 + OW
               then gf (i + a - (k - 1)) (j + b - (k - 1)) else 0) * kf (k - 1 - a) (k - 1 - b)))
        = (\<Sum>i<H. \<Sum>j<W. z i j * (\<Sum>p<k. \<Sum>q<k.
             (if (p \<le> i \<and> i < p + OH) \<and> (q \<le> j \<and> j < q + OW)
              then gf (i - p) (j - q) else 0) * kf p q))"
    by (simp only: kernel_flip [OF assms(1)])
  also have "\<dots> = (\<Sum>i<H. \<Sum>j<W. \<Sum>p<k. \<Sum>q<k.
             if (p \<le> i \<and> i < p + OH) \<and> (q \<le> j \<and> j < q + OW)
             then T p q i j (i - p) (j - q) else 0)"
    unfolding T_def sum_distrib_left by (intro sum.cong refl) simp
  also have "\<dots> = (\<Sum>p<k. \<Sum>q<k. \<Sum>i<H. \<Sum>j<W.
             if (p \<le> i \<and> i < p + OH) \<and> (q \<le> j \<and> j < q + OW)
             then T p q i j (i - p) (j - q) else 0)"
    by (rule sum_swap4)
  also have "\<dots> = (\<Sum>p<k. \<Sum>q<k. \<Sum>i<OH. \<Sum>j<OW. T p q (i + p) (j + q) i j)"
  proof (rule sum.cong [OF refl], rule sum.cong [OF refl])
    fix p q assume "p \<in> {..<k}" "q \<in> {..<k}"
    then have "p < k" "q < k" by simp_all
    then have "p + OH \<le> H" "q + OW \<le> W" unfolding assms(2,3) by arith+
    then show "(\<Sum>i<H. \<Sum>j<W.
             if (p \<le> i \<and> i < p + OH) \<and> (q \<le> j \<and> j < q + OW)
             then T p q i j (i - p) (j - q) else 0)
          = (\<Sum>i<OH. \<Sum>j<OW. T p q (i + p) (j + q) i j)"
      by (rule sum_shift_window2 [where t = "T p q"])
  qed
  also have "\<dots> = (\<Sum>i<OH. \<Sum>j<OW. \<Sum>p<k. \<Sum>q<k. T p q (i + p) (j + q) i j)"
    by (rule sum_swap4 [symmetric])
  also have "\<dots> = (\<Sum>i<OH. \<Sum>j<OW. (\<Sum>p<k. \<Sum>q<k. z (i + p) (j + q) * kf p q) * gf i j)"
    unfolding T_def sum_distrib_right by (intro sum.cong refl) simp
  finally show ?thesis by simp
qed

lemma map2_concat_uniform:
  assumes "\<And>i. i < n \<Longrightarrow> length (r i) = length (r' i)"
  shows "map2 op (concat (map r [0..<n])) (concat (map r' [0..<n]))
         = concat (map (\<lambda>i. map2 op (r i) (r' i)) [0..<n])"
  using assms
proof (induction n)
  case 0
  then show ?case by simp
next
  case (Suc n)
  have "length (concat (map r [0..<n])) = length (concat (map r' [0..<n]))"
    using Suc.prems by (induction n) simp_all
  then show ?case
    using Suc by simp
qed

lemma amul_tab3 [simp]:
  "amul (tab3 n h w g) (tab3 n h w g') = tab3 n h w (\<lambda>f i j. g f i j * g' f i j)"
  by (simp add: amul_def tab3_def map2_concat_uniform map2_rows2)

lemma conv_forward_value:
  assumes "shape (conv_filter L) = [conv_num_filters L, conv_filter_size L, conv_filter_size L]"
    and "shape inp = [H, W]" and "conv_filter_size L \<le> H" and "conv_filter_size L \<le> W"
  shows "conv_forward L inp
         = Inr (tab3 (conv_num_filters L) (H - conv_filter_size L + 1) (W - conv_filter_size L + 1)
                  (\<lambda>f i j. (\<Sum>a<conv_filter_size L. \<Sum>b<conv_filter_size L.
                               get2 inp (i + a) (j + b) * get3 (conv_filter L) f a b)
                            + data (conv_bias L) ! f),
                L\<lparr>conv_input := Some inp\<rparr>)"
proof -
  define k where "k = conv_filter_size L"
  have oh: "nat (int H - int k + 1) = H - k + 1" and ow: "nat (int W - int k + 1) = W - k + 1"
    using assms(3,4) by (simp_all add: k_def)
  have "tab3 (conv_num_filters L) (H - k + 1) (W - k + 1)
          (\<lambda>f i j. np_sum (amul (slice2 inp i (i + k) j (j + k)) (sub0 (conv_filter L) f))
                   + data (conv_bias L) ! f)
        = tab3 (conv_num_filters L) (H - k + 1) (W - k + 1)
          (\<lambda>f i j. (\<Sum>a<k. \<Sum>b<k. get2 inp (i + a) (j + b) * get3 (conv_filter L) f a b)
                   + data (conv_bias L) ! f)"
  proof (rule tab3_cong)
    fix f i j assume "i < H - k + 1" "j < W - k + 1"
    then have "i + k \<le> H" "j + k \<le> W" using assms(3,4) by (simp_all add: k_def)
    then show "np_sum (amul (slice2 inp i (i + k) j (j + k)) (sub0 (conv_filter L) f))
                 + data (conv_bias L) ! f
               = (\<Sum>a<k. \<Sum>b<k. get2 inp (i + a) (j + b) * get3 (conv_filter L) f a b)
                 + data (conv_bias L) ! f"
      using assms(1,2) by (simp add: conv_patch_sum k_def)
  qed
  then show ?thesis
    using assms(2-4) oh ow by (simp add: conv_forward_def Let_def k_def)
qed

lemma conv_input_error_entry:
  assumes "shape oe = [F, OH, OW]" and "shape K = [F, k, k]" and "0 < k"
    and "i < OH + (k - 1)" and "j < OW + (k - 1)"
  shows "(\<Sum>a<k. \<Sum>b<k. get2 (np_pad (sub0 oe f) (k - 1)) (i + a) (j + b)
                            * get2 (np_rot90_2 (sub0 K f)) a b)
         = (\<Sum>a<k. \<Sum>b<k.
              (if k - 1 \<le> i + a \<and> i + a < k - 1 + OH \<and> k - 1 \<le> j + b \<and> j + b < k - 1 + OW
               then get3 oe f (i + a - (k - 1)) (j + b - (k - 1)) else 0)
              * get3 K f (k - 1 - a) (k - 1 - b))"
proof (rule sum.cong [OF refl], rule sum.cong [OF refl])
  fix a b assume "a \<in> {..<k}" "b \<in> {..<k}"
  then have ab: "a < k" "b < k" by simp_all
  have "i + a < OH + 2 * (k - 1)" "j + b < OW + 2 * (k - 1)"
    using assms(4,5) ab by arith+
  then show "get2 (np_pad (sub0 oe f) (k - 1)) (i + a) (j + b) * get2 (np_rot90_2 (sub0 K f)) a b
        = (if k - 1 \<le> i + a \<and> i + a < k - 1 + OH \<and> k - 1 \<le> j + b \<and> j + b < k - 1 + OW
               then get3 oe f (i + a - (k - 1)) (j + b - (k - 1)) else 0)
              * get3 K f (k - 1 - a) (k - 1 - b)"
    by (simp only: get2_pad_gradient [OF assms(1)] get2_rot_kernel [OF assms(2) ab])
qed

lemma sum_swap3:
  "(\<Sum>i<(A::nat). \<Sum>j<(B::nat). \<Sum>f<(C::nat). (t i j f :: real)) = (\<Sum>f<C. \<Sum>i<A. \<Sum>j<B. t i j f)"
proof -
  have "(\<Sum>i<A. \<Sum>j<B. \<Sum>f<C. t i j f) = (\<Sum>i<A. \<Sum>f<C. \<Sum>j<B. t i j f)"
    by (rule sum.cong [OF refl]) (rule sum.swap)
  also have "\<dots> = (\<Sum>f<C. \<Sum>i<A. \<Sum>j<B. t i j f)"
    by (rule sum.swap)
  finally show ?thesis .
qed

lemma conv_adjoint:
  fixes k H W OH OW F :: nat
  assumes "0 < k" and "H = OH + (k - 1)" and "W = OW + (k - 1)"
  shows "(\<Sum>f<F. \<Sum>i<OH. \<Sum>j<OW. ((\<Sum>p<k. \<Sum>q<k. z (i + p) (j + q) * kf f p q) + 0) * gf f i j)
         = (\<Sum>i<H. \<Sum>j<W. z i j * (\<Sum>f<F. \<Sum>a<k. \<Sum>b<k.
              (if k - 1 \<le> i + a \<and> i + a < k - 1 + OH \<and> k - 1 \<le> j + b \<and> j + b < k - 1 + OW
               then gf f (i + a - (k - 1)) (j + b - (k - 1)) else 0)
              * (kf f (k - 1 - a) (k - 1 - b) :: real)))"
proof -
  have "(\<Sum>i<H. \<Sum>j<W. z i j * (\<Sum>f<F. \<Sum>a<k. \<Sum>b<k.
              (if k - 1 \<le> i + a \<and> i + a < k - 1 + OH \<and> k - 1 \<le> j + b \<and> j + b < k - 1 + OW
               then gf f (i + a - (k - 1)) (j + b - (k - 1)) else 0)
              * kf f (k - 1 - a) (k - 1 - b)))
        = (\<Sum>i<H. \<Sum>j<W. \<Sum>f<F. z i j * (\<Sum>a<k. \<Sum>b<k.
              (if k - 1 \<le> i + a \<and> i + a < k - 1 + OH \<and> k - 1 \<le> j + b \<and> j + b < k - 1 + OW
               then gf f (i + a - (k - 1)) (j + b - (k - 1)) else 0)
              * kf f (k - 1 - a) (k - 1 - b)))"
    by (simp only: sum_distrib_left [where A = "{..<F}"])
  also have "\<dots> = (\<Sum>f<F. \<Sum>i<H. \<Sum>j<W. z i j * (\<Sum>a<k. \<Sum>b<k.
              (if k - 1 \<le> i + a \<and> i + a < k - 1 + OH \<and> k - 1 \<le> j + b \<and> j + b < k - 1 + OW
               then gf f (i + a - (k - 1)) (j + b - (k - 1)) else 0)
              * kf f (k - 1 - a) (k - 1 - b)))"
    by (rule sum_swap3)
  also have "\<dots> = (\<Sum>f<F. \<Sum>i<OH. \<Sum>j<OW. (\<Sum>p<k. \<Sum>q<k. z (i + p) (j + q) * kf f p q) * gf f i j)"
    by (rule sum.cong [OF refl]) (rule conv_adjoint_filter [OF assms, symmetric])
  finally show ?thesis by simp
qed



section \<open>The training step: gradient, loss, accuracy and determinism\<close>

lemma label_row_vector:
  assumes "shape out = [n, 1]" and "wf out" and "l < n"
  shows "label_row out l = [data out ! l]"
proof -
  have "length (data out) = n" using assms(1,2) by (simp add: wf_def)
  then have "take 1 (drop l (data out)) = [data out ! l]"
    using assms(3) by (simp add: take_Suc_conv_app_nth [where i = 0])
  then show ?thesis using assms(1) by (simp add: label_row_def)
qed

lemma one_hot_list:
  "l < n \<Longrightarrow> replicate l 0 @ [v] @ replicate (n - l - 1) 0 = (replicate n (0::real))[l := v]"
  by (simp add: list_eq_iff_nth_eq nth_append nth_list_update)



lemma forward_same_params: "same_params l1 l2 \<Longrightarrow> forward l1 x = forward l2 x"
proof (induction l1 l2 rule: same_params.induct)
  case (1 a b)
  then have "a\<lparr>conv_input := Some x\<rparr> = b\<lparr>conv_input := Some x\<rparr>"
    by (cases a, cases b) simp
  then show ?case using 1 by (simp add: conv_forward_def Let_def split: list.splits)
next
  case (2 a b)
  have "a\<lparr>relu_input := Some x\<rparr> = b\<lparr>relu_input := Some x\<rparr>"
    by (cases a, cases b) simp
  then show ?case by (simp add: relu_forward_def)
next
  case (3 a b)
  then have "a\<lparr>pool_input := Some x\<rparr> = b\<lparr>pool_input := Some x\<rparr>"
    by (cases a, cases b) simp
  then show ?case using 3 by (simp add: pool_forward_def Let_def split: list.splits)
next
  case (4 a b)
  have "a\<lparr>flatten_input_shape := Some (shape x)\<rparr> = b\<lparr>flatten_input_shape := Some (shape x)\<rparr>"
    by (cases a, cases b) simp
  then show ?case by (simp add: flatten_forward_def Let_def)
next
  case (5 a b)
  then have "a\<lparr>fc_input := Some x, fc_output := Some y\<rparr> = b\<lparr>fc_input := Some x, fc_output := Some y\<rparr>"
    for y
    by (cases a, cases b) simp
  then show ?case using 5
    by (simp add: fc_forward_def Let_def split: list.splits sum.splits)
next
  case (6 a b)
  have "a\<lparr>softmax_output := Some y\<rparr> = b\<lparr>softmax_output := Some y\<rparr>" for y
    by (cases a, cases b) simp
  then show ?case
    by (simp add: softmax_forward_def Let_def split: list.splits sum.splits)
qed simp_all

lemma forward_all_same_params:
  "list_all2 same_params ls1 ls2 \<Longrightarrow> forward_all ls1 x = forward_all ls2 x"
proof (induction ls1 ls2 arbitrary: x rule: list_all2_induct)
  case Nil
  then show ?case by simp
next
  case (Cons l1 ls1 l2 ls2)
  then show ?case
    by (simp add: forward_same_params [of l1 l2] split: sum.splits prod.splits)
qed



end
